theory Spec2Isabelle
  imports Complex_Main
begin

section \<open>Values of the raw record graph\<close>

text \<open>
  The viewer receives untyped data (\<^verbatim>\<open>unknown\<close>) from the fragments library. A value is
  one of the JavaScript value shapes the code distinguishes with \<^verbatim>\<open>typeof\<close>,
  \<^verbatim>\<open>Array.isArray\<close>, \<^verbatim>\<open>in\<close> and truthiness.

  A number is an IEEE double. The code modelled here never computes with numbers, it only
  tests and copies them, so a finite double is written as the rational it denotes, next to
  the four special values. A string is written as the list of its bytes.

  An object is the list of its own enumerable properties in insertion order; an array is the
  list of its elements. Values are data: records and arrays hold no functions and no accessor
  properties, and their prototypes are the built-in ones, on which none of the property
  names read by the code live.
\<close>

datatype number = Finite rat | NegZero | PosInfinity | NegInfinity | NaN

datatype jsval =
    JUndefined
  | JNull
  | JBool bool
  | JNum number
  | JStr string
  | JObj "(string \<times> jsval) list"
  | JArr "jsval list"

text \<open>Truthiness: \<^verbatim>\<open>!v\<close> is \<open>\<not> truthy v\<close>.\<close>

fun truthy :: "jsval \<Rightarrow> bool" where
  "truthy JUndefined = False"
| "truthy JNull = False"
| "truthy (JBool b) = b"
| "truthy (JNum n) = (n \<noteq> Finite 0 \<and> n \<noteq> NegZero \<and> n \<noteq> NaN)"
| "truthy (JStr s) = (s \<noteq> [])"
| "truthy (JObj kvs) = True"
| "truthy (JArr xs) = True"

fun typeof :: "jsval \<Rightarrow> string" where
  "typeof JUndefined = ''undefined''"
| "typeof JNull = ''object''"
| "typeof (JBool b) = ''boolean''"
| "typeof (JNum n) = ''number''"
| "typeof (JStr s) = ''string''"
| "typeof (JObj kvs) = ''object''"
| "typeof (JArr xs) = ''object''"

text \<open>The decimal numeral of an array index, as \<^verbatim>\<open>Object.entries\<close> names it.\<close>

definition digit :: "nat \<Rightarrow> char" where
  "digit d = char_of (48 + d)"

function decimal :: "nat \<Rightarrow> string" where
  "decimal n = (if n < 10 then [digit n] else decimal (n div 10) @ [digit (n mod 10)])"
  by pat_completeness auto
termination
  by (relation "measure (\<lambda>n. n)") auto

text \<open>\<^verbatim>\<open>Object.entries(v)\<close> for an object or an array.\<close>

fun entries :: "jsval \<Rightarrow> (string \<times> jsval) list" where
  "entries (JObj kvs) = kvs"
| "entries (JArr xs) = zip (map decimal [0..<length xs]) xs"
| "entries v = []"

text \<open>
  Reading a property, \<^verbatim>\<open>v.k\<close>: the own property if there is one, \<^verbatim>\<open>undefined\<close>
  otherwise. \<^verbatim>\<open>k in v\<close> is \<open>has_property\<close>.
\<close>

definition get :: "jsval \<Rightarrow> string \<Rightarrow> jsval" where
  "get v k = (case map_of (entries v) k of Some x \<Rightarrow> x | None \<Rightarrow> JUndefined)"

definition has_property :: "string \<Rightarrow> jsval \<Rightarrow> bool" where
  "has_property k v = (map_of (entries v) k \<noteq> None)"

text \<open>
  Writing a property of a plain object, \<^verbatim>\<open>o[k] = v\<close>: an existing key keeps its place, a
  new key is appended. The key \<^verbatim>\<open>__proto__\<close> is the prototype accessor: assigning to it
  creates no own property. (The enumeration order of integer-like keys is not modelled;
  nothing below depends on the order of a result object.)
\<close>

fun update :: "string \<Rightarrow> 'a \<Rightarrow> (string \<times> 'a) list \<Rightarrow> (string \<times> 'a) list" where
  "update k v [] = [(k, v)]"
| "update k v (p # ps) = (if fst p = k then (k, v) # ps else p # update k v ps)"

definition assign :: "string \<Rightarrow> 'a \<Rightarrow> (string \<times> 'a) list \<Rightarrow> (string \<times> 'a) list" where
  "assign k v obj = (if k = ''__proto__'' then obj else update k v obj)"

section \<open>Attribute extractor\<close>

definition extractValue :: "jsval \<Rightarrow> jsval" where
  "extractValue attr =
     (if \<not> truthy attr then JNull
      else if typeof attr = ''object'' \<and> attr \<noteq> JNull \<and> has_property ''value'' attr
        then get attr ''value''
      else if typeof attr = ''string'' \<or> typeof attr = ''number'' \<or> typeof attr = ''boolean''
        then attr
      else JNull)"

text \<open>A scalar is a string, a number or a boolean.\<close>

definition is_scalar :: "jsval \<Rightarrow> bool" where
  "is_scalar v = (typeof v = ''string'' \<or> typeof v = ''number'' \<or> typeof v = ''boolean'')"

section \<open>Quantity-set formatter\<close>

datatype error = TypeError

text \<open>\<^verbatim>\<open>s.includes(pat)\<close> on strings: \<open>pat\<close> occurs in \<open>s\<close> as a contiguous run.\<close>

fun str_includes :: "string \<Rightarrow> string \<Rightarrow> bool" where
  "str_includes [] pat = (pat = [])"
| "str_includes (c # cs) pat = (take (length pat) (c # cs) = pat \<or> str_includes cs pat)"

text \<open>The unit strings; the superscripts are written as their UTF-8 bytes.\<close>

definition unit_m2 :: string where
  "unit_m2 = [CHR ''m'', CHR 0xC2, CHR 0xB2]"

definition unit_m3 :: string where
  "unit_m3 = [CHR ''m'', CHR 0xC2, CHR 0xB3]"

text \<open>
  The chain of tests of \<^verbatim>\<open>getQuantityUnit\<close>, over the test \<open>inc\<close> that
  \<^verbatim>\<open>quantityType.includes\<close> performs.
\<close>

definition unitChain :: "(string \<Rightarrow> bool) \<Rightarrow> string" where
  "unitChain inc =
     (if inc ''Volume'' then unit_m3
      else if inc ''Area'' then unit_m2
      else if inc ''Length'' \<or> inc ''Width'' \<or> inc ''Height'' \<or> inc ''Depth'' \<or> inc ''Perimeter''
        then ''m''
      else if inc ''Weight'' \<or> inc ''Mass'' then ''kg''
      else if inc ''Count'' then ''ud''
      else if inc ''Time'' then ''s''
      else [])"

definition getQuantityUnit :: "string \<Rightarrow> string" where
  "getQuantityUnit quantityType = unitChain (str_includes quantityType)"

text \<open>
  The call \<^verbatim>\<open>getQuantityUnit(qObj.type)\<close> is made on any truthy \<^verbatim>\<open>qObj.type\<close>: the
  declared type \<^verbatim>\<open>string\<close> comes from a cast. A string is searched for the keyword, an array
  has \<^verbatim>\<open>includes\<close> too and is searched for an element equal to it, and any other truthy
  value has no method \<^verbatim>\<open>includes\<close>: the call raises a \<^verbatim>\<open>TypeError\<close>.
\<close>

fun getQuantityUnit_call :: "jsval \<Rightarrow> error + string" where
  "getQuantityUnit_call (JStr t) = Inr (getQuantityUnit t)"
| "getQuantityUnit_call (JArr ts) = Inr (unitChain (\<lambda>pat. JStr pat \<in> set ts))"
| "getQuantityUnit_call v = Inl TypeError"

record quantity =
  "value" :: jsval
  unit :: string

text \<open>
  The chain that selects the value field of a quantity sub-record: the value extracted from
  the first of the six fields that is not \<^verbatim>\<open>undefined\<close>, and that field's unit.
\<close>

definition probe :: "jsval \<Rightarrow> jsval \<times> string" where
  "probe qObj =
     (if get qObj ''LengthValue'' \<noteq> JUndefined then (extractValue (get qObj ''LengthValue''), ''m'')
      else if get qObj ''AreaValue'' \<noteq> JUndefined then (extractValue (get qObj ''AreaValue''), unit_m2)
      else if get qObj ''VolumeValue'' \<noteq> JUndefined then (extractValue (get qObj ''VolumeValue''), unit_m3)
      else if get qObj ''WeightValue'' \<noteq> JUndefined then (extractValue (get qObj ''WeightValue''), ''kg'')
      else if get qObj ''CountValue'' \<noteq> JUndefined then (extractValue (get qObj ''CountValue''), ''ud'')
      else if get qObj ''TimeValue'' \<noteq> JUndefined then (extractValue (get qObj ''TimeValue''), ''s'')
      else (JNull, []))"

text \<open>
  The body of the loop over \<^verbatim>\<open>psetObj.Quantities\<close>: the entry it writes into
  \<^verbatim>\<open>quantities\<close>, \<open>None\<close> where it writes nothing, or the exception it raises.
\<close>

definition quantityEntry :: "jsval \<Rightarrow> error + (string \<times> quantity) option" where
  "quantityEntry q =
     (if \<not> truthy q \<or> typeof q \<noteq> ''object'' then Inr None
      else case extractValue (get q ''Name'') of
        JStr qName \<Rightarrow>
          if qName = [] then Inr None
          else
            let (v, u) = probe q in
            (case (if v = JNull \<and> truthy (get q ''type'')
                   then getQuantityUnit_call (get q ''type'') else Inr u) of
               Inl e \<Rightarrow> Inl e
             | Inr u' \<Rightarrow>
                 if v \<noteq> JNull \<and> typeof v = ''number''
                 then Inr (Some (qName, \<lparr>value = v, unit = u'\<rparr>))
                 else Inr None)
      | _ \<Rightarrow> Inr None)"

fun quantitiesLoop ::
  "jsval list \<Rightarrow> (string \<times> quantity) list \<Rightarrow> error + (string \<times> quantity) list" where
  "quantitiesLoop [] quantities = Inr quantities"
| "quantitiesLoop (q # qs) quantities =
     (case quantityEntry q of
        Inl e \<Rightarrow> Inl e
      | Inr None \<Rightarrow> quantitiesLoop qs quantities
      | Inr (Some (qName, qData)) \<Rightarrow> quantitiesLoop qs (assign qName qData quantities))"

text \<open>
  The body of the loop over \<^verbatim>\<open>rawPsets\<close>: the entry it writes into \<^verbatim>\<open>result\<close>,
  \<open>None\<close> where the record is skipped.
\<close>

definition quantitySet :: "jsval \<Rightarrow> error + (string \<times> (string \<times> quantity) list) option" where
  "quantitySet pset =
     (if \<not> truthy pset \<or> typeof pset \<noteq> ''object'' then Inr None
      else if get pset ''type'' \<noteq> JStr ''IfcElementQuantity'' then Inr None
      else case extractValue (get pset ''Name'') of
        JStr qsetName \<Rightarrow>
          if qsetName = [] then Inr None
          else (case get pset ''Quantities'' of
             JArr qs \<Rightarrow>
               (case quantitiesLoop qs [] of
                  Inl e \<Rightarrow> Inl e
                | Inr quantities \<Rightarrow>
                    if length quantities > 0 then Inr (Some (qsetName, quantities))
                    else Inr None)
           | _ \<Rightarrow> Inr None)
      | _ \<Rightarrow> Inr None)"

fun formatQuantitySets_loop ::
  "jsval list \<Rightarrow> (string \<times> (string \<times> quantity) list) list
     \<Rightarrow> error + (string \<times> (string \<times> quantity) list) list" where
  "formatQuantitySets_loop [] result = Inr result"
| "formatQuantitySets_loop (pset # psets) result =
     (case quantitySet pset of
        Inl e \<Rightarrow> Inl e
      | Inr None \<Rightarrow> formatQuantitySets_loop psets result
      | Inr (Some (qsetName, quantities)) \<Rightarrow>
          formatQuantitySets_loop psets (assign qsetName quantities result))"

definition formatQuantitySets ::
  "jsval list \<Rightarrow> error + (string \<times> (string \<times> quantity) list) list" where
  "formatQuantitySets rawPsets = formatQuantitySets_loop rawPsets []"

text \<open>
  The specification's reading of the value selection, for comparison with \<open>probe\<close>: an
  ordered table of field names and units, of which the first present field wins.
\<close>

definition valueFields :: "(string \<times> string) list" where
  "valueFields =
     [(''LengthValue'', ''m''), (''AreaValue'', unit_m2), (''VolumeValue'', unit_m3),
      (''WeightValue'', ''kg''), (''CountValue'', ''ud''), (''TimeValue'', ''s'')]"

definition probe_spec :: "jsval \<Rightarrow> jsval \<times> string" where
  "probe_spec qObj =
     (case find (\<lambda>(f, u). get qObj f \<noteq> JUndefined) valueFields of
        Some (f, u) \<Rightarrow> (extractValue (get qObj f), u)
      | None \<Rightarrow> (JNull, []))"

text \<open>The entries a sequence of quantity sub-records writes, in order.\<close>

definition emitted :: "jsval list \<Rightarrow> (string \<times> quantity) list" where
  "emitted qs =
     List.map_filter (\<lambda>q. case quantityEntry q of Inr (Some e) \<Rightarrow> Some e | _ \<Rightarrow> None) qs"

section \<open>Property-set formatter\<close>

definition structuralKeys :: "string list" where
  "structuralKeys =
     [''Name'', ''type'', ''HasProperties'', ''GlobalId'', ''OwnerHistory'', ''Description'']"

text \<open>\<^verbatim>\<open>a || b\<close>.\<close>

definition or_else :: "jsval \<Rightarrow> jsval \<Rightarrow> jsval" where
  "or_else a b = (if truthy a then a else b)"

text \<open>The loop over \<^verbatim>\<open>psetObj.HasProperties\<close>.\<close>

fun hasPropertiesLoop :: "jsval list \<Rightarrow> (string \<times> jsval) list \<Rightarrow> (string \<times> jsval) list" where
  "hasPropertiesLoop [] props = props"
| "hasPropertiesLoop (p # ps) props =
     (if \<not> truthy p \<or> typeof p \<noteq> ''object'' then hasPropertiesLoop ps props
      else
        let propName = extractValue (get p ''Name'');
            propValue = extractValue (get p ''NominalValue'')
        in case propName of
          JStr n \<Rightarrow>
            if n \<noteq> [] \<and> propValue \<noteq> JUndefined \<and> propValue \<noteq> JNull
            then hasPropertiesLoop ps (assign n propValue props)
            else hasPropertiesLoop ps props
        | _ \<Rightarrow> hasPropertiesLoop ps props)"

text \<open>The loop over \<^verbatim>\<open>Object.entries(psetObj)\<close>.\<close>

fun directPropertiesLoop ::
  "(string \<times> jsval) list \<Rightarrow> (string \<times> jsval) list \<Rightarrow> (string \<times> jsval) list" where
  "directPropertiesLoop [] props = props"
| "directPropertiesLoop ((key, v) # kvs) props =
     (if key \<in> set structuralKeys then directPropertiesLoop kvs props
      else
        let extracted = extractValue v
        in if extracted \<noteq> JNull \<and> typeof extracted \<noteq> ''object''
           then directPropertiesLoop kvs (assign key extracted props)
           else directPropertiesLoop kvs props)"

definition propertySet :: "jsval \<Rightarrow> (string \<times> (string \<times> jsval) list) option" where
  "propertySet pset =
     (if \<not> truthy pset \<or> typeof pset \<noteq> ''object'' then None
      else if get pset ''type'' = JStr ''IfcElementQuantity'' then None
      else case or_else (or_else (extractValue (get pset ''Name'')) (get pset ''type''))
                  (JStr ''PropertySet'') of
        JStr psetName \<Rightarrow>
          let props0 = (case get pset ''HasProperties'' of
                          JArr hs \<Rightarrow> hasPropertiesLoop hs []
                        | _ \<Rightarrow> []);
              props = directPropertiesLoop (entries pset) props0
          in if length props > 0 then Some (psetName, props) else None
      | _ \<Rightarrow> None)"

fun formatPropertySets_loop ::
  "jsval list \<Rightarrow> (string \<times> (string \<times> jsval) list) list
     \<Rightarrow> (string \<times> (string \<times> jsval) list) list" where
  "formatPropertySets_loop [] result = result"
| "formatPropertySets_loop (pset # psets) result =
     (case propertySet pset of
        None \<Rightarrow> formatPropertySets_loop psets result
      | Some (psetName, props) \<Rightarrow> formatPropertySets_loop psets (assign psetName props result))"

definition formatPropertySets :: "jsval list \<Rightarrow> (string \<times> (string \<times> jsval) list) list" where
  "formatPropertySets rawPsets = formatPropertySets_loop rawPsets []"


section \<open>Element resolver\<close>

text \<open>
  The body of \<^verbatim>\<open>updatePropertiesPanel\<close> for one element builds the HTML text of the element
  from the values below. The embedding keeps those values in a record and leaves the HTML
  around them out. A label that the code converts with \<^verbatim>\<open>String(...)\<close> is kept as the
  value that is converted, \<open>None\<close> standing for the initial empty label; converting a
  value of the record graph to text raises nothing. The mapping of type properties, filled
  in the same loop as the type label, raises nothing either and is left out.
\<close>

record viewModel =
  localId :: nat
  name :: jsval
  globalId :: jsval
  ifcClass :: jsval
  predefinedType :: jsval
  objectType :: jsval
  typeInfo :: "jsval option"
  tag :: jsval
  description :: jsval
  longName :: jsval
  spatialContainer :: "jsval option"
  materials :: "jsval list"
  directAttributes :: "(string \<times> jsval) list"
  propertySets :: "(string \<times> (string \<times> jsval) list) list"
  quantitySets :: "(string \<times> (string \<times> quantity) list) list"

definition skipKeys :: "string list" where
  "skipKeys =
     [''IsDefinedBy'', ''IsTypedBy'', ''ContainedInStructure'', ''HasAssociations'',
      ''Representation'', ''ObjectPlacement'', ''OwnerHistory'', ''type'']"

text \<open>The loop over \<^verbatim>\<open>Object.entries(dataObj)\<close> that collects the direct attributes.\<close>

fun directAttributesLoop ::
  "(string \<times> jsval) list \<Rightarrow> (string \<times> jsval) list \<Rightarrow> (string \<times> jsval) list" where
  "directAttributesLoop [] attrs = attrs"
| "directAttributesLoop ((key, v) # kvs) attrs =
     (if key \<notin> set skipKeys \<and> v \<noteq> JNull \<and> v \<noteq> JUndefined
      then
        let extracted = extractValue v
        in if extracted \<noteq> JNull
           then directAttributesLoop kvs (assign key extracted attrs)
           else directAttributesLoop kvs attrs
      else directAttributesLoop kvs attrs)"

text \<open>
  The loops over the relation arrays read a property of each entry without a test, so an
  entry that is \<^verbatim>\<open>null\<close> or \<^verbatim>\<open>undefined\<close> raises a \<^verbatim>\<open>TypeError\<close>.
\<close>

definition nullish :: "jsval \<Rightarrow> bool" where
  "nullish v = (v = JNull \<or> v = JUndefined)"

fun typeLoop :: "jsval list \<Rightarrow> jsval option \<Rightarrow> error + jsval option" where
  "typeLoop [] label = Inr label"
| "typeLoop (rel # rels) label =
     (if nullish rel then Inl TypeError
      else
        let typeName = extractValue (get rel ''Name'')
        in typeLoop rels (if truthy typeName then Some typeName else label))"

fun containerLoop :: "jsval list \<Rightarrow> error + jsval option" where
  "containerLoop [] = Inr None"
| "containerLoop (rel # rels) =
     (if nullish rel then Inl TypeError
      else
        let containerName = extractValue (get rel ''Name'')
        in if truthy containerName then Inr (Some containerName) else containerLoop rels)"

fun materialsLoop :: "jsval list \<Rightarrow> jsval list \<Rightarrow> error + jsval list" where
  "materialsLoop [] mats = Inr mats"
| "materialsLoop (assoc # assocs) mats =
     (if nullish assoc then Inl TypeError
      else if get assoc ''type'' = JStr ''IfcRelAssociatesMaterial''
      then
        let matName = extractValue (get assoc ''Name'')
        in materialsLoop assocs (if truthy matName then mats @ [matName] else mats)
      else materialsLoop assocs mats)"

definition resolveElement :: "nat \<Rightarrow> (string \<times> jsval) list \<Rightarrow> error + viewModel" where
  "resolveElement elementId item =
     (let dataObj = JObj item in
      case (case get dataObj ''IsTypedBy'' of JArr rels \<Rightarrow> typeLoop rels None | _ \<Rightarrow> Inr None) of
        Inl e \<Rightarrow> Inl e
      | Inr typeLabel \<Rightarrow>
      case (case get dataObj ''ContainedInStructure'' of JArr rels \<Rightarrow> containerLoop rels
            | _ \<Rightarrow> Inr None) of
        Inl e \<Rightarrow> Inl e
      | Inr container \<Rightarrow>
      case (case get dataObj ''HasAssociations'' of JArr assocs \<Rightarrow> materialsLoop assocs []
            | _ \<Rightarrow> Inr []) of
        Inl e \<Rightarrow> Inl e
      | Inr mats \<Rightarrow>
      case (case get dataObj ''IsDefinedBy'' of JArr defs \<Rightarrow> formatQuantitySets defs
            | _ \<Rightarrow> Inr []) of
        Inl e \<Rightarrow> Inl e
      | Inr qsets \<Rightarrow>
        Inr \<lparr>localId = elementId,
             name = or_else (or_else (extractValue (get dataObj ''Name'')) (get dataObj ''type''))
                      (JStr (''Element '' @ decimal elementId)),
             globalId = extractValue (get dataObj ''GlobalId''),
             ifcClass = get dataObj ''type'',
             predefinedType = extractValue (get dataObj ''PredefinedType''),
             objectType = extractValue (get dataObj ''ObjectType''),
             typeInfo = typeLabel,
             tag = extractValue (get dataObj ''Tag''),
             description = extractValue (get dataObj ''Description''),
             longName = extractValue (get dataObj ''LongName''),
             spatialContainer = container,
             materials = mats,
             directAttributes = directAttributesLoop item [],
             propertySets = (case get dataObj ''IsDefinedBy'' of
                               JArr defs \<Rightarrow> formatPropertySets defs | _ \<Rightarrow> []),
             quantitySets = qsets\<rparr>)"

section \<open>Selection batch\<close>

text \<open>
  What the awaited call \<^verbatim>\<open>model.getItemsData([localId], ...)\<close> yields for one element:
  the promise is rejected, or it resolves to the array of item records.
\<close>

datatype fetchResult = Rejected | Resolved "(string \<times> jsval) list list"

text \<open>
  The \<^verbatim>\<open>try\<close> block for one element. The inner \<^verbatim>\<open>catch\<close> swallows a failed fetch and
  leaves \<^verbatim>\<open>dataObj\<close> empty; an empty \<^verbatim>\<open>dataObj\<close> is replaced by the minimal entry.
\<close>

definition processElement :: "nat \<Rightarrow> fetchResult \<Rightarrow> error + viewModel" where
  "processElement elementId fetched =
     (let dataObj0 = (case fetched of
                        Resolved (item # items) \<Rightarrow> item
                      | _ \<Rightarrow> []);
          dataObj = (if length dataObj0 = 0 then [(''type'', JStr ''Unknown'')] else dataObj0)
      in resolveElement elementId dataObj)"

text \<open>
  The outer \<^verbatim>\<open>catch\<close>: an element whose resolution raises is logged and pushes nothing.
\<close>

definition pushElement :: "nat \<times> fetchResult \<Rightarrow> viewModel list \<Rightarrow> viewModel list" where
  "pushElement el out =
     (case processElement (fst el) (snd el) of
        Inl e \<Rightarrow> out
      | Inr html \<Rightarrow> out @ [html])"

fun elementsLoop :: "(nat \<times> fetchResult) list \<Rightarrow> viewModel list \<Rightarrow> viewModel list" where
  "elementsLoop [] out = out"
| "elementsLoop (el # els) out = elementsLoop els (pushElement el out)"

text \<open>
  A selection is the \<^verbatim>\<open>modelIdMap\<close> in the order of its entries, each local id paired with
  what its fetch yields. \<open>loaded\<close> lists the model ids that \<^verbatim>\<open>fragments.list\<close> holds; the
  ids of a model that is not loaded are passed over. No model is loaded or removed while
  an invocation runs.
\<close>

type_synonym selection = "(string \<times> (nat \<times> fetchResult) list) list"

definition selectedElements :: "string list \<Rightarrow> selection \<Rightarrow> (nat \<times> fetchResult) list" where
  "selectedElements loaded modelIdMap =
     concat (map snd (filter (\<lambda>(modelId, ids). modelId \<in> set loaded) modelIdMap))"

datatype panel =
    SelectPrompt
  | Loading
  | Rendered "viewModel list"
  | NoProperties

definition commit :: "viewModel list \<Rightarrow> panel" where
  "commit out = (if length out > 0 then Rendered out else NoProperties)"

text \<open>One invocation of \<^verbatim>\<open>updatePropertiesPanel\<close>, run to its end with nothing in between.\<close>

definition updatePropertiesPanel :: "string list \<Rightarrow> selection \<Rightarrow> panel" where
  "updatePropertiesPanel loaded modelIdMap =
     (if length modelIdMap = 0 then SelectPrompt
      else commit (elementsLoop (selectedElements loaded modelIdMap) []))"

section \<open>Invocations in flight\<close>

text \<open>
  \<^verbatim>\<open>updatePropertiesPanel\<close> is asynchronous and the selection handlers do not wait for it.
  An invocation runs until its next \<^verbatim>\<open>await\<close>, and goes on when the awaited fetch settles;
  between the two, other handlers run. An invocation in flight is the list of elements it
  has still to fetch, the first of which is being awaited, and its \<^verbatim>\<open>propsHtml\<close> so far.
  In the functions above, \<open>out\<close> is that array.
\<close>

record invocation =
  pending :: "(nat \<times> fetchResult) list"
  propsHtml :: "viewModel list"

record viewer =
  propsContainer :: panel
  invocations :: "invocation list"

datatype event =
    Select selection
  | Settle nat

text \<open>
  \<open>Select\<close>: a selection event starts an invocation, which writes the prompt or the loading
  text and runs up to its first fetch; with nothing to fetch it commits at once.
  \<open>Settle i\<close>: the fetch awaited by invocation \<open>i\<close> settles; the invocation handles the
  element and either awaits the next fetch or, after the last one, commits its output.
\<close>

definition startInvocation :: "string list \<Rightarrow> selection \<Rightarrow> viewer \<Rightarrow> viewer" where
  "startInvocation loaded modelIdMap w =
     (if length modelIdMap = 0
      then w\<lparr>propsContainer := SelectPrompt,
             invocations := invocations w @ [\<lparr>pending = [], propsHtml = []\<rparr>]\<rparr>
      else
        let els = selectedElements loaded modelIdMap
        in w\<lparr>propsContainer := (if els = [] then commit [] else Loading),
              invocations := invocations w @ [\<lparr>pending = els, propsHtml = []\<rparr>]\<rparr>)"

definition settle :: "nat \<Rightarrow> viewer \<Rightarrow> viewer" where
  "settle i w =
     (if i < length (invocations w)
      then (case pending (invocations w ! i) of
              [] \<Rightarrow> w
            | el # els \<Rightarrow>
                let html = pushElement el (propsHtml (invocations w ! i))
                in w\<lparr>propsContainer := (if els = [] then commit html else propsContainer w),
                      invocations := (invocations w)[i := \<lparr>pending = els, propsHtml = html\<rparr>]\<rparr>)
      else w)"

fun step :: "string list \<Rightarrow> event \<Rightarrow> viewer \<Rightarrow> viewer" where
  "step loaded (Select modelIdMap) w = startInvocation loaded modelIdMap w"
| "step loaded (Settle i) w = settle i w"

fun run :: "string list \<Rightarrow> event list \<Rightarrow> viewer \<Rightarrow> viewer" where
  "run loaded [] w = w"
| "run loaded (ev # evs) w = run loaded evs (step loaded ev w)"

section \<open>Ghost mode\<close>

text \<open>
  Materials are objects with identity: the registry and the snapshot map refer to them, and
  both transitions mutate them in place. A material is an address into a store. Its colour
  sits in the property \<^verbatim>\<open>color\<close> or, where it has none, in \<^verbatim>\<open>lodColor\<close>.

  The colour is an object of the three.js library, which is not part of the source. The
  code reaches it through three methods only, so the type of colours \<open>'c\<close> and the three
  methods are parameters of the embedding: \<^verbatim>\<open>getHex\<close> reads a colour as an integer,
  \<^verbatim>\<open>setHex\<close> and \<^verbatim>\<open>setColorName\<close> overwrite it. A colour belongs to one material.
\<close>

type_synonym addr = nat

record 'c colorLibrary =
  getHex :: "'c \<Rightarrow> nat"
  setHex :: "nat \<Rightarrow> 'c \<Rightarrow> 'c"
  setColorName :: "string \<Rightarrow> 'c \<Rightarrow> 'c"

datatype 'c shade = Color 'c | LodColor 'c

text \<open>
  The two branches on \<^verbatim>\<open>"color" in material\<close>: the method is called on \<^verbatim>\<open>material.color\<close>
  or on \<^verbatim>\<open>material.lodColor\<close>.
\<close>

fun shadeGetHex :: "'c colorLibrary \<Rightarrow> 'c shade \<Rightarrow> nat" where
  "shadeGetHex lib (Color c) = getHex lib c"
| "shadeGetHex lib (LodColor c) = getHex lib c"

fun shadeSetHex :: "'c colorLibrary \<Rightarrow> nat \<Rightarrow> 'c shade \<Rightarrow> 'c shade" where
  "shadeSetHex lib h (Color c) = Color (setHex lib h c)"
| "shadeSetHex lib h (LodColor c) = LodColor (setHex lib h c)"

fun shadeSetColorName :: "'c colorLibrary \<Rightarrow> string \<Rightarrow> 'c shade \<Rightarrow> 'c shade" where
  "shadeSetColorName lib nm (Color c) = Color (setColorName lib nm c)"
| "shadeSetColorName lib nm (LodColor c) = LodColor (setColorName lib nm c)"

text \<open>The double written \<^verbatim>\<open>0.1\<close>.\<close>

definition ghostOpacity :: number where
  "ghostOpacity = Finite (3602879701896397 / 36028797018963968)"

record 'c material =
  customId :: jsval
  shade :: "'c shade"
  transparent :: bool
  opacity :: number
  needsUpdate :: bool

record snapshot =
  data_color :: nat
  data_transparent :: bool
  data_opacity :: number

record 'c ghost =
  store :: "addr \<Rightarrow> 'c material"
  materialsList :: "addr list"
  originalColors :: "(addr \<times> snapshot) list"
  ghostModeEnabled :: bool

text \<open>\<^verbatim>\<open>originalColors.set(material, data)\<close>.\<close>

fun mapSet :: "addr \<Rightarrow> snapshot \<Rightarrow> (addr \<times> snapshot) list \<Rightarrow> (addr \<times> snapshot) list" where
  "mapSet k v [] = [(k, v)]"
| "mapSet k v (p # ps) = (if fst p = k then (k, v) # ps else p # mapSet k v ps)"

fun transparentLoop :: "'c colorLibrary \<Rightarrow> addr list \<Rightarrow> 'c ghost \<Rightarrow> 'c ghost" where
  "transparentLoop lib [] g = g"
| "transparentLoop lib (a # as) g =
     (let m = store g a in
      if truthy (customId m) then transparentLoop lib as g
      else transparentLoop lib as
        (g\<lparr>originalColors :=
             mapSet a \<lparr>data_color = shadeGetHex lib (shade m), data_transparent = transparent m,
                       data_opacity = opacity m\<rparr> (originalColors g),
           store := (store g)(a := m\<lparr>transparent := True, opacity := ghostOpacity,
                                     needsUpdate := True,
                                     shade := shadeSetColorName lib ''white'' (shade m)\<rparr>)\<rparr>))"

definition setModelTransparent :: "'c colorLibrary \<Rightarrow> 'c ghost \<Rightarrow> 'c ghost" where
  "setModelTransparent lib g =
     (transparentLoop lib (materialsList g) g)\<lparr>ghostModeEnabled := True\<rparr>"

fun restoreLoop ::
  "'c colorLibrary \<Rightarrow> (addr \<times> snapshot) list \<Rightarrow> (addr \<Rightarrow> 'c material)
     \<Rightarrow> (addr \<Rightarrow> 'c material)" where
  "restoreLoop lib [] st = st"
| "restoreLoop lib ((a, d) # rest) st =
     restoreLoop lib rest
       (st(a := (st a)\<lparr>transparent := data_transparent d, opacity := data_opacity d,
                       shade := shadeSetHex lib (data_color d) (shade (st a)),
                       needsUpdate := True\<rparr>))"

definition restoreModelMaterials :: "'c colorLibrary \<Rightarrow> 'c ghost \<Rightarrow> 'c ghost" where
  "restoreModelMaterials lib g =
     g\<lparr>store := restoreLoop lib (originalColors g) (store g),
       originalColors := [],
       ghostModeEnabled := False\<rparr>"

definition onGhost :: "'c colorLibrary \<Rightarrow> 'c ghost \<Rightarrow> 'c ghost" where
  "onGhost lib g =
     (if ghostModeEnabled g then restoreModelMaterials lib g else setModelTransparent lib g)"

section \<open>Tables and example records\<close>

text \<open>The units of the six value fields.\<close>

definition unitTable :: "string list" where
  "unitTable = [''m'', unit_m2, unit_m3, ''kg'', ''ud'', ''s'']"

text \<open>An emitted quantity is well formed: its value is a number, its unit is in the table.\<close>

definition wellFormed :: "string \<times> quantity \<Rightarrow> bool" where
  "wellFormed e = (typeof (value (snd e)) = ''number'' \<and> unit (snd e) \<in> set unitTable)"

text \<open>
  The elements of a value that is an array (none otherwise), and the quantity sub-records
  on whose \<^verbatim>\<open>type\<close> the call of \<^verbatim>\<open>includes\<close> cannot fail: the \<^verbatim>\<open>type\<close> is a string, an
  array or falsy.
\<close>

definition array :: "jsval \<Rightarrow> jsval list" where
  "array v = (case v of JArr xs \<Rightarrow> xs | _ \<Rightarrow> [])"

definition typeSearchable :: "jsval \<Rightarrow> bool" where
  "typeSearchable q =
     (case get q ''type'' of JStr t \<Rightarrow> True | JArr ts \<Rightarrow> True | v \<Rightarrow> \<not> truthy v)"

text \<open>A quantity set named \<^verbatim>\<open>Qto_WallBaseQuantities\<close> around given quantity sub-records.\<close>

definition qset :: "jsval list \<Rightarrow> jsval" where
  "qset qs =
     JObj [(''type'', JStr ''IfcElementQuantity''), (''Name'', JStr ''Qto_WallBaseQuantities''),
           (''Quantities'', JArr qs)]"

definition areaRecord :: jsval where
  "areaRecord = JObj [(''Name'', JStr ''NetSideArea''), (''AreaValue'', JNum (Finite 12.5))]"

definition heightRecord :: jsval where
  "heightRecord =
     JObj [(''Name'', JStr ''Height''), (''type'', JStr ''Qto_WallBaseQuantities.Height'')]"

definition bareZeroRecord :: jsval where
  "bareZeroRecord = JObj [(''Name'', JStr ''Width''), (''LengthValue'', JNum (Finite 0))]"

definition wrappedZeroRecord :: jsval where
  "wrappedZeroRecord =
     JObj [(''Name'', JStr ''Width''), (''LengthValue'', JObj [(''value'', JNum (Finite 0))])]"

definition lengthTwice :: "jsval list" where
  "lengthTwice =
     [JObj [(''Name'', JStr ''Length''), (''LengthValue'', JNum (Finite 2))],
      JObj [(''Name'', JStr ''Length''), (''LengthValue'', JObj [(''value'', JNum (Finite 3))])]]"

definition descriptionPset :: jsval where
  "descriptionPset =
     JObj [(''Name'', JStr ''Pset_WallCommon''),
           (''HasProperties'',
            JArr [JObj [(''Name'', JStr ''Description''),
                        (''NominalValue'', JObj [(''value'', JStr ''Exterior wall'')])]])]"

text \<open>The area record as the fragments library delivers it: typed, its attributes wrapped.\<close>

definition typedAreaRecord :: jsval where
  "typedAreaRecord =
     JObj [(''Name'', JObj [(''value'', JStr ''NetSideArea'')]), (''type'', JStr ''IfcQuantityArea''),
           (''AreaValue'', JObj [(''value'', JNum (Finite 12.5))])]"

text \<open>
  The entries that the quantity-set records of an input write into the result, in order.
\<close>

definition emittedSets :: "jsval list \<Rightarrow> (string \<times> (string \<times> quantity) list) list" where
  "emittedSets raw =
     List.map_filter (\<lambda>p. case quantitySet p of Inr (Some e) \<Rightarrow> Some e | _ \<Rightarrow> None) raw"

text \<open>
  The body of the loop over \<^verbatim>\<open>psetObj.HasProperties\<close>: the entry a sub-record writes into
  \<^verbatim>\<open>props\<close>, \<open>None\<close> where it writes nothing; and the entries a sequence of sub-records
  writes, in order.
\<close>

definition subProperty :: "jsval \<Rightarrow> (string \<times> jsval) option" where
  "subProperty p =
     (if \<not> truthy p \<or> typeof p \<noteq> ''object'' then None
      else case extractValue (get p ''Name'') of
        JStr n \<Rightarrow>
          if n \<noteq> [] \<and> extractValue (get p ''NominalValue'') \<noteq> JUndefined \<and>
             extractValue (get p ''NominalValue'') \<noteq> JNull
          then Some (n, extractValue (get p ''NominalValue'')) else None
      | _ \<Rightarrow> None)"

definition subProperties :: "jsval list \<Rightarrow> (string \<times> jsval) list" where
  "subProperties hs = List.map_filter subProperty hs"

text \<open>
  A property set with a direct field \<^verbatim>\<open>Description\<close> and a property of the same name.
\<close>

definition bothPset :: jsval where
  "bothPset =
     JObj [(''Name'', JStr ''Pset_WallCommon''),
           (''Description'', JStr ''direct''),
           (''Reference'', JStr ''W-01''),
           (''HasProperties'',
            JArr [JObj [(''Name'', JStr ''Description''),
                        (''NominalValue'', JObj [(''value'', JStr ''sub'')])]])]"

text \<open>An element with two type records, and the view model the resolver builds for it.\<close>

definition typeRecordA :: jsval where
  "typeRecordA = JObj [(''Name'', JObj [(''value'', JStr ''TypeA'')])]"

definition typeRecordB :: jsval where
  "typeRecordB = JObj [(''Name'', JObj [(''value'', JStr ''TypeB'')])]"

definition wallItem :: "(string \<times> jsval) list" where
  "wallItem =
     [(''Name'', JObj [(''value'', JStr ''Basic Wall'')]),
      (''GlobalId'', JObj [(''value'', JStr ''2O2Fr0t4X7Zf8NOew3FLOH'')]),
      (''type'', JStr ''IfcWall''),
      (''IsTypedBy'', JArr [typeRecordA, typeRecordB])]"

definition wallModel :: viewModel where
  "wallModel =
     \<lparr>localId = 7, name = JStr ''Basic Wall'', globalId = JStr ''2O2Fr0t4X7Zf8NOew3FLOH'',
      ifcClass = JStr ''IfcWall'', predefinedType = JNull, objectType = JNull,
      typeInfo = Some (JStr ''TypeB''), tag = JNull, description = JNull, longName = JNull,
      spatialContainer = None, materials = [],
      directAttributes =
        [(''Name'', JStr ''Basic Wall''), (''GlobalId'', JStr ''2O2Fr0t4X7Zf8NOew3FLOH'')],
      propertySets = [], quantitySets = []\<rparr>"

text \<open>The truthy extracted names of a sequence of relation records, in order.\<close>

definition relationNames :: "jsval list \<Rightarrow> jsval list" where
  "relationNames rels = filter truthy (map (\<lambda>rel. extractValue (get rel ''Name'')) rels)"

text \<open>The view model of the minimal entry \<^verbatim>\<open>{ type: "Unknown" }\<close>.\<close>

definition unknownModel :: "nat \<Rightarrow> viewModel" where
  "unknownModel elementId =
     \<lparr>localId = elementId, name = JStr ''Unknown'', globalId = JNull,
      ifcClass = JStr ''Unknown'', predefinedType = JNull, objectType = JNull,
      typeInfo = None, tag = JNull, description = JNull, longName = JNull,
      spatialContainer = None, materials = [], directAttributes = [], propertySets = [],
      quantitySets = []\<rparr>"

text \<open>Two selections of one element each, in a loaded model.\<close>

definition elementA :: "nat \<times> fetchResult" where
  "elementA = (1, Resolved [[(''Name'', JStr ''Wall A''), (''type'', JStr ''IfcWall'')]])"

definition elementB :: "nat \<times> fetchResult" where
  "elementB = (2, Resolved [[(''Name'', JStr ''Door B''), (''type'', JStr ''IfcDoor'')]])"

definition selectionA :: selection where
  "selectionA = [(''model-1'', [elementA])]"

definition selectionB :: selection where
  "selectionB = [(''model-1'', [elementB])]"

text \<open>
  The viewer before any selection, and the selections that a sequence of events has
  started, in order: invocation \<open>i\<close> is the one started by the \<open>i\<close>-th of them.
\<close>

definition viewer0 :: viewer where
  "viewer0 = \<lparr>propsContainer = SelectPrompt, invocations = []\<rparr>"

fun selections :: "event list \<Rightarrow> selection list" where
  "selections [] = []"
| "selections (Select modelIdMap # evs) = modelIdMap # selections evs"
| "selections (Settle i # evs) = selections evs"

text \<open>
  An invocation in flight for a selection has handled a prefix of the selected elements,
  and its \<^verbatim>\<open>propsHtml\<close> is what the loop pushes for that prefix.
\<close>

definition inFlight :: "string list \<Rightarrow> selection \<Rightarrow> invocation \<Rightarrow> bool" where
  "inFlight loaded modelIdMap task =
     (\<exists>handled. selectedElements loaded modelIdMap = handled @ pending task \<and>
                propsHtml task = elementsLoop handled [])"

definition consistent :: "string list \<Rightarrow> selection list \<Rightarrow> viewer \<Rightarrow> bool" where
  "consistent loaded sels w =
     (length (invocations w) = length sels \<and>
      (\<forall>i < length sels. inFlight loaded (sels ! i) (invocations w ! i)))"

text \<open>
  What activation does to one material, the snapshot it takes of it, and what deactivation
  does with a snapshot.
\<close>

definition ghosted :: "'c colorLibrary \<Rightarrow> 'c material \<Rightarrow> 'c material" where
  "ghosted lib m = m\<lparr>transparent := True, opacity := ghostOpacity, needsUpdate := True,
                     shade := shadeSetColorName lib ''white'' (shade m)\<rparr>"

definition snapshotOf :: "'c colorLibrary \<Rightarrow> 'c material \<Rightarrow> snapshot" where
  "snapshotOf lib m = \<lparr>data_color = shadeGetHex lib (shade m), data_transparent = transparent m,
                       data_opacity = opacity m\<rparr>"

definition restored :: "'c colorLibrary \<Rightarrow> snapshot \<Rightarrow> 'c material \<Rightarrow> 'c material" where
  "restored lib d m = m\<lparr>transparent := data_transparent d, opacity := data_opacity d,
                         shade := shadeSetHex lib (data_color d) (shade m),
                         needsUpdate := True\<rparr>"

text \<open>
  A colour library of the kind three.js is, for the examples: a colour holds three channels
  (doubles, written as the rationals they denote), \<^verbatim>\<open>getHex\<close> scales each channel to
  0..255, rounds it and packs the three bytes, \<^verbatim>\<open>setHex\<close> unpacks the bytes and divides
  each by 255. The conversion between colour spaces that three.js may add to both methods
  is left out.
\<close>

record rgb =
  red :: rat
  green :: rat
  blue :: rat

definition channel8 :: "rat \<Rightarrow> nat" where
  "channel8 x = nat \<lfloor>max 0 (min 255 (x * 255)) + 1 / 2\<rfloor>"

definition rgbGetHex :: "rgb \<Rightarrow> nat" where
  "rgbGetHex c = channel8 (red c) * 65536 + channel8 (green c) * 256 + channel8 (blue c)"

definition rgbSetHex :: "nat \<Rightarrow> rgb \<Rightarrow> rgb" where
  "rgbSetHex h c =
     \<lparr>red = of_nat (h div 65536 mod 256) / 255, green = of_nat (h div 256 mod 256) / 255,
      blue = of_nat (h mod 256) / 255\<rparr>"

definition rgbSetColorName :: "string \<Rightarrow> rgb \<Rightarrow> rgb" where
  "rgbSetColorName nm c = (if nm = ''white'' then rgbSetHex 0xFFFFFF c else c)"

definition rgbLibrary :: "rgb colorLibrary" where
  "rgbLibrary = \<lparr>getHex = rgbGetHex, setHex = rgbSetHex, setColorName = rgbSetColorName\<rparr>"

text \<open>
  A registry of two materials: a grey one whose channels are one half, and one that carries
  a custom identifier. Then a registry that lists one red material twice; its colour is one
  that \<^verbatim>\<open>setHex\<close> produces.
\<close>

definition grey :: "rgb material" where
  "grey = \<lparr>customId = JUndefined,
           shade = Color \<lparr>red = 1 / 2, green = 1 / 2, blue = 1 / 2\<rparr>,
           transparent = False, opacity = Finite 1, needsUpdate = False\<rparr>"

definition marked :: "rgb material" where
  "marked = \<lparr>customId = JStr ''selection'',
             shade = LodColor \<lparr>red = 0, green = 1, blue = 0\<rparr>,
             transparent = True, opacity = Finite (1 / 2), needsUpdate = False\<rparr>"

definition store0 :: "addr \<Rightarrow> rgb material" where
  "store0 a = (if a = 0 then grey else marked)"

definition ghost0 :: "rgb ghost" where
  "ghost0 = \<lparr>store = store0, materialsList = [0, 1], originalColors = [],
             ghostModeEnabled = False\<rparr>"

definition brick :: "rgb material" where
  "brick = \<lparr>customId = JUndefined,
            shade = Color \<lparr>red = 204 / 255, green = 51 / 255, blue = 51 / 255\<rparr>,
            transparent = False, opacity = Finite 1, needsUpdate = False\<rparr>"

definition storeBrick :: "addr \<Rightarrow> rgb material" where
  "storeBrick a = brick"

definition ghostTwice :: "rgb ghost" where
  "ghostTwice = \<lparr>store = storeBrick, materialsList = [0, 0], originalColors = [],
                 ghostModeEnabled = False\<rparr>"

section \<open>Properties of the attribute extractor\<close>

lemma extractValue_scalar:
  "is_scalar v \<Longrightarrow> extractValue v = (if truthy v then v else JNull)"
  by (cases v) (simp_all add: extractValue_def is_scalar_def)

lemma extractValue_JNull: "extractValue JNull = JNull"
  by (simp add: extractValue_def)

text \<open>
  Claim C1, as the code has it. The extractor starts with the guard \<^verbatim>\<open>if (!attr) return null\<close>,
  so a scalar is returned unchanged exactly when it is truthy: a non-empty string, a number
  other than \<open>0\<close>, \<open>-0\<close> and \<open>NaN\<close>, or \<open>true\<close>. The falsy scalars become \<^verbatim>\<open>null\<close>.
  Extracting twice from a scalar gives the same as extracting once.
\<close>

theorem extractValue_truthy_scalar_unchanged:
  "is_scalar v \<Longrightarrow>
     extractValue v = (if truthy v then v else JNull) \<and>
     extractValue (extractValue v) = extractValue v"
  by (simp add: extractValue_scalar extractValue_JNull)

theorem extractValue_truthy_scalar_unchanged_witness:
  "is_scalar (JStr ''IfcWall'') \<and> truthy (JStr ''IfcWall'') \<and>
   extractValue (JStr ''IfcWall'') = JStr ''IfcWall'' \<and>
   extractValue (extractValue (JStr ''IfcWall'')) = extractValue (JStr ''IfcWall'')"
proof -
  have s: "is_scalar (JStr ''IfcWall'')"
    by (simp add: is_scalar_def)
  show ?thesis
    using s extractValue_truthy_scalar_unchanged [OF s] by simp
qed

text \<open>
  Claim C1, as the specification states it, fails: the number \<open>0\<close> is a scalar, and the
  extractor returns \<^verbatim>\<open>null\<close> for it.
\<close>

theorem extractValue_zero_counterexample:
  "is_scalar (JNum (Finite 0)) \<and> extractValue (JNum (Finite 0)) \<noteq> JNum (Finite 0)"
  by (simp add: is_scalar_def extractValue_def)

section \<open>Property assignment\<close>

lemma set_update_subset: "set (update k v m) \<subseteq> insert (k, v) (set m)"
  by (induction m) auto

lemma map_of_update: "map_of (update k v m) = (map_of m)(k \<mapsto> v)"
  by (induction m) (auto simp: fun_eq_iff)

lemma set_assign_subset: "set (assign k v m) \<subseteq> insert (k, v) (set m)"
  using set_update_subset [of k v m] by (auto simp: assign_def)

lemma map_of_assign:
  "map_of (assign k v m) n =
     (if k \<noteq> ''__proto__'' \<and> n = k then Some v else map_of m n)"
  by (simp add: assign_def map_of_update)

lemma keys_assign_subset: "fst ` set (assign k v m) \<subseteq> insert k (fst ` set m)"
  using set_assign_subset [of k v m] by auto

section \<open>Properties of the quantity-set formatter\<close>

lemma probe_refines: "probe q = probe_spec q"
  by (simp add: probe_def probe_spec_def valueFields_def)

lemma probe_unit: "probe q = (v, u) \<Longrightarrow> v \<noteq> JNull \<Longrightarrow> u \<in> set unitTable"
  by (auto simp: probe_def unitTable_def split: if_splits)

lemma probe_spec_present:
  "probe_spec q = (v, u) \<Longrightarrow> v \<noteq> JNull \<Longrightarrow>
     \<exists>f. find (\<lambda>(f, u). get q f \<noteq> JUndefined) valueFields = Some (f, u) \<and>
         v = extractValue (get q f)"
  by (auto simp: probe_spec_def split: option.splits)

lemma quantityEntry_probe:
  assumes "quantityEntry q = Inr (Some (n, d))"
  shows "(value d, unit d) = probe q \<and> value d \<noteq> JNull \<and> typeof (value d) = ''number'' \<and> n \<noteq> []"
proof -
  obtain v u where p: "probe q = (v, u)" by (cases "probe q")
  from assms p show ?thesis
    by (auto simp: quantityEntry_def split: if_splits jsval.splits sum.splits)
qed

lemma quantityEntry_wellFormed:
  assumes "quantityEntry q = Inr (Some (n, d))"
  shows "wellFormed (n, d)"
proof -
  from quantityEntry_probe [OF assms]
  have p: "probe q = (value d, unit d)" "value d \<noteq> JNull" "typeof (value d) = ''number''"
    by simp_all
  from probe_unit [OF p(1,2)] p(3) show ?thesis by (simp add: wellFormed_def)
qed

lemma quantitiesLoop_wellFormed:
  "quantitiesLoop qs acc = Inr m \<Longrightarrow> \<forall>e \<in> set acc. wellFormed e \<Longrightarrow> \<forall>e \<in> set m. wellFormed e"
proof (induction qs arbitrary: acc)
  case Nil
  then show ?case by simp
next
  case (Cons q qs)
  show ?case
  proof (cases "quantityEntry q")
    case (Inl e)
    with Cons.prems show ?thesis by simp
  next
    case (Inr r)
    show ?thesis
    proof (cases r)
      case None
      with Inr Cons show ?thesis by simp
    next
      case (Some a)
      obtain n d where a: "a = (n, d)" by (cases a)
      from Inr Some a have qe: "quantityEntry q = Inr (Some (n, d))" by simp
      from qe Cons.prems(1) have l: "quantitiesLoop qs (assign n d acc) = Inr m" by simp
      have "\<forall>e \<in> set (assign n d acc). wellFormed e"
        using set_assign_subset [of n d acc] Cons.prems(2) quantityEntry_wellFormed [OF qe]
        by auto
      with Cons.IH [OF l] show ?thesis by simp
    qed
  qed
qed

lemma emitted_Cons:
  "emitted (q # qs) =
     (case quantityEntry q of Inr (Some e) \<Rightarrow> e # emitted qs | _ \<Rightarrow> emitted qs)"
  by (simp add: emitted_def List.map_filter_simps split: sum.splits option.splits)

lemma quantitiesLoop_last:
  "quantitiesLoop qs acc = Inr m \<Longrightarrow> n \<noteq> ''__proto__'' \<Longrightarrow>
     map_of m n = (case map_of (rev (emitted qs)) n of Some x \<Rightarrow> Some x | None \<Rightarrow> map_of acc n)"
proof (induction qs arbitrary: acc)
  case Nil
  then show ?case by (simp add: emitted_def List.map_filter_simps)
next
  case (Cons q qs)
  show ?case
  proof (cases "quantityEntry q")
    case (Inl e)
    with Cons.prems show ?thesis by simp
  next
    case (Inr r)
    show ?thesis
    proof (cases r)
      case None
      with Inr Cons show ?thesis by (simp add: emitted_Cons)
    next
      case (Some a)
      obtain k d where a: "a = (k, d)" by (cases a)
      from Inr Some a have qe: "quantityEntry q = Inr (Some (k, d))" by simp
      from qe Cons.prems(1) have l: "quantitiesLoop qs (assign k d acc) = Inr m" by simp
      from Cons.IH [OF l Cons.prems(2)] qe Cons.prems(2) show ?thesis
        by (auto simp: emitted_Cons map_of_assign map_add_def split: option.splits)
    qed
  qed
qed

lemma quantitySet_Some:
  assumes "quantitySet pset = Inr (Some (s, m))"
  shows "m \<noteq> [] \<and> (\<exists>qs. get pset ''Quantities'' = JArr qs \<and>
            extractValue (get pset ''Name'') = JStr s \<and> quantitiesLoop qs [] = Inr m)"
  using assms
  by (auto simp: quantitySet_def split: if_splits jsval.splits sum.splits)

lemma formatQuantitySets_loop_origin:
  "formatQuantitySets_loop raw acc = Inr r \<Longrightarrow> (s, m) \<in> set r \<Longrightarrow>
     (s, m) \<in> set acc \<or> (\<exists>pset \<in> set raw. quantitySet pset = Inr (Some (s, m)))"
proof (induction raw arbitrary: acc)
  case Nil
  then show ?case by simp
next
  case (Cons p ps)
  show ?case
  proof (cases "quantitySet p")
    case (Inl e)
    with Cons.prems show ?thesis by simp
  next
    case (Inr x)
    show ?thesis
    proof (cases x)
      case None
      with Inr Cons show ?thesis by auto
    next
      case (Some a)
      obtain k d where a: "a = (k, d)" by (cases a)
      from Inr Some a have qs: "quantitySet p = Inr (Some (k, d))" by simp
      from qs Cons.prems(1) have l: "formatQuantitySets_loop ps (assign k d acc) = Inr r" by simp
      from Cons.IH [OF l Cons.prems(2)] set_assign_subset [of k d acc] qs show ?thesis
        by auto
    qed
  qed
qed

text \<open>The formatter returns where no call of \<^verbatim>\<open>includes\<close> can fail.\<close>

lemma quantityEntry_returns:
  assumes "typeSearchable q"
  shows "\<exists>r. quantityEntry q = Inr r"
proof -
  obtain v u where p: "probe q = (v, u)" by (cases "probe q")
  from assms have "\<not> truthy (get q ''type'') \<or> (\<exists>r. getQuantityUnit_call (get q ''type'') = Inr r)"
    by (cases "get q ''type''") (auto simp: typeSearchable_def)
  with p show ?thesis
    by (auto simp: quantityEntry_def split: jsval.splits)
qed

lemma quantitiesLoop_returns:
  "\<forall>q \<in> set qs. typeSearchable q \<Longrightarrow> \<exists>m. quantitiesLoop qs acc = Inr m"
proof (induction qs arbitrary: acc)
  case Nil
  then show ?case by simp
next
  case (Cons q qs)
  from Cons.prems quantityEntry_returns [of q] obtain r where r: "quantityEntry q = Inr r" by auto
  from Cons.prems have "\<forall>q \<in> set qs. typeSearchable q" by simp
  from Cons.IH [OF this] r show ?case by (cases r) auto
qed

lemma quantitySet_returns:
  assumes "\<forall>q \<in> set (array (get pset ''Quantities'')). typeSearchable q"
  shows "\<exists>r. quantitySet pset = Inr r"
proof (cases "get pset ''Quantities''")
  case (JArr qs)
  with assms quantitiesLoop_returns [of qs "[]"] obtain m where "quantitiesLoop qs [] = Inr m"
    by (auto simp: array_def)
  with JArr show ?thesis by (auto simp: quantitySet_def split: jsval.splits)
qed (auto simp: quantitySet_def split: jsval.splits)

lemma formatQuantitySets_loop_returns:
  "\<forall>pset \<in> set raw. \<forall>q \<in> set (array (get pset ''Quantities'')). typeSearchable q \<Longrightarrow>
     \<exists>r. formatQuantitySets_loop raw acc = Inr r"
proof (induction raw arbitrary: acc)
  case Nil
  then show ?case by simp
next
  case (Cons p ps)
  from Cons.prems quantitySet_returns [of p] obtain r where r: "quantitySet p = Inr r" by auto
  from Cons.prems have "\<forall>pset \<in> set ps. \<forall>q \<in> set (array (get pset ''Quantities'')). typeSearchable q"
    by simp
  from Cons.IH [OF this] r show ?case by (cases r) auto
qed

lemma formatQuantitySets_returns:
  "\<forall>pset \<in> set raw. \<forall>q \<in> set (array (get pset ''Quantities'')). typeSearchable q \<Longrightarrow>
     \<exists>r. formatQuantitySets raw = Inr r"
  by (simp add: formatQuantitySets_def formatQuantitySets_loop_returns)

text \<open>Evaluation of the formatter on a set that holds one quantity sub-record.\<close>

lemma qset_single:
  "quantityEntry q = Inr (Some (n, d)) \<Longrightarrow> n \<noteq> ''__proto__'' \<Longrightarrow>
     formatQuantitySets [qset [q]] = Inr [(''Qto_WallBaseQuantities'', [(n, d)])]"
  by (simp add: formatQuantitySets_def quantitySet_def qset_def get_def extractValue_def
      has_property_def assign_def)

lemma qset_none:
  "quantityEntry q = Inr None \<Longrightarrow> formatQuantitySets [qset [q]] = Inr []"
  by (simp add: formatQuantitySets_def quantitySet_def qset_def get_def extractValue_def
      has_property_def assign_def)

lemma area_entry:
  "quantityEntry areaRecord =
     Inr (Some (''NetSideArea'', \<lparr>value = JNum (Finite 12.5), unit = unit_m2\<rparr>))"
  by (simp add: areaRecord_def quantityEntry_def get_def extractValue_def has_property_def
      probe_def)

lemma height_entry: "quantityEntry heightRecord = Inr None"
  by (simp add: heightRecord_def quantityEntry_def get_def extractValue_def has_property_def
      probe_def)

lemma bareZero_entry: "quantityEntry bareZeroRecord = Inr None"
  by (simp add: bareZeroRecord_def quantityEntry_def get_def extractValue_def has_property_def
      probe_def)

lemma wrappedZero_entry:
  "quantityEntry wrappedZeroRecord =
     Inr (Some (''Width'', \<lparr>value = JNum (Finite 0), unit = ''m''\<rparr>))"
  by (simp add: wrappedZeroRecord_def quantityEntry_def get_def extractValue_def
      has_property_def probe_def)

lemma lengthTwice_emitted:
  "emitted lengthTwice =
     [(''Length'', \<lparr>value = JNum (Finite 2), unit = ''m''\<rparr>),
      (''Length'', \<lparr>value = JNum (Finite 3), unit = ''m''\<rparr>)]"
  by (simp add: lengthTwice_def emitted_def List.map_filter_simps quantityEntry_def get_def
      extractValue_def has_property_def probe_def)

lemma lengthTwice_formatted:
  "formatQuantitySets [qset lengthTwice] =
     Inr [(''Qto_WallBaseQuantities'', [(''Length'', \<lparr>value = JNum (Finite 3), unit = ''m''\<rparr>)])]"
  by (simp add: lengthTwice_def formatQuantitySets_def quantitySet_def qset_def quantityEntry_def
      get_def extractValue_def has_property_def probe_def assign_def)

text \<open>
  Claim C3. Whenever the formatter returns, every quantity set of the result has at least one
  quantity; every quantity in it has a value of type number and a unit from the table
  m, m2, m3, kg, ud, s or the empty string; and the set comes from a record of the input
  whose quantity sub-records, read in order, leave under each name the entry written last
  for that name.
\<close>

theorem formatQuantitySets_emitted:
  assumes "formatQuantitySets rawPsets = Inr result"
    and "(qsetName, quantities) \<in> set result"
  shows "quantities \<noteq> [] \<and>
     (\<forall>(qName, qData) \<in> set quantities.
        typeof (value qData) = ''number'' \<and> unit qData \<in> set unitTable \<union> {[]}) \<and>
     (\<exists>pset \<in> set rawPsets. \<exists>qs.
        get pset ''Quantities'' = JArr qs \<and>
        extractValue (get pset ''Name'') = JStr qsetName \<and>
        (\<forall>n. n \<noteq> ''__proto__'' \<longrightarrow> map_of quantities n = map_of (rev (emitted qs)) n))"
proof -
  from assms formatQuantitySets_loop_origin [of rawPsets "[]" result qsetName quantities]
  obtain pset where pset: "pset \<in> set rawPsets"
      "quantitySet pset = Inr (Some (qsetName, quantities))"
    by (auto simp: formatQuantitySets_def)
  from quantitySet_Some [OF pset(2)] obtain qs where
    qs: "quantities \<noteq> []" "get pset ''Quantities'' = JArr qs"
        "extractValue (get pset ''Name'') = JStr qsetName" "quantitiesLoop qs [] = Inr quantities"
    by blast
  have g: "\<forall>e \<in> set quantities. wellFormed e"
    using quantitiesLoop_wellFormed [OF qs(4)] by simp
  have l: "\<forall>n. n \<noteq> ''__proto__'' \<longrightarrow> map_of quantities n = map_of (rev (emitted qs)) n"
    using quantitiesLoop_last [OF qs(4)] by (auto split: option.splits)
  from g have "\<forall>(qName, qData) \<in> set quantities.
        typeof (value qData) = ''number'' \<and> unit qData \<in> set unitTable \<union> {[]}"
    by (auto simp: wellFormed_def)
  with qs(1,2,3) pset(1) l show ?thesis by blast
qed

theorem formatQuantitySets_emitted_witness:
  "formatQuantitySets [qset lengthTwice] =
     Inr [(''Qto_WallBaseQuantities'', [(''Length'', \<lparr>value = JNum (Finite 3), unit = ''m''\<rparr>)])] \<and>
   emitted lengthTwice =
     [(''Length'', \<lparr>value = JNum (Finite 2), unit = ''m''\<rparr>),
      (''Length'', \<lparr>value = JNum (Finite 3), unit = ''m''\<rparr>)] \<and>
   typeof (value \<lparr>value = JNum (Finite 3), unit = ''m''\<rparr>) = ''number'' \<and>
   unit \<lparr>value = JNum (Finite 3), unit = ''m''\<rparr> \<in> set unitTable \<union> {[]} \<and>
   (\<exists>pset \<in> set [qset lengthTwice]. \<exists>qs.
        get pset ''Quantities'' = JArr qs \<and>
        extractValue (get pset ''Name'') = JStr ''Qto_WallBaseQuantities'' \<and>
        (\<forall>n. n \<noteq> ''__proto__'' \<longrightarrow>
           map_of [(''Length'', \<lparr>value = JNum (Finite 3), unit = ''m''\<rparr>)] n =
           map_of (rev (emitted qs)) n))"
proof -
  let ?q = "[(''Length'', \<lparr>value = JNum (Finite 3), unit = ''m''\<rparr>)]"
  have m: "(''Qto_WallBaseQuantities'', ?q) \<in> set [(''Qto_WallBaseQuantities'', ?q)]"
    by simp
  note t = formatQuantitySets_emitted [OF lengthTwice_formatted m]
  from t have u: "\<forall>(qName, qData) \<in> set ?q.
        typeof (value qData) = ''number'' \<and> unit qData \<in> set unitTable \<union> {[]}"
    by (rule conjunct2 [THEN conjunct1])
  from u have u1: "typeof (value \<lparr>value = JNum (Finite 3), unit = ''m''\<rparr>) = ''number''"
    and u2: "unit \<lparr>value = JNum (Finite 3), unit = ''m''\<rparr> \<in> set unitTable \<union> {[]}"
    by simp_all
  from t have l: "\<exists>pset \<in> set [qset lengthTwice]. \<exists>qs.
        get pset ''Quantities'' = JArr qs \<and>
        extractValue (get pset ''Name'') = JStr ''Qto_WallBaseQuantities'' \<and>
        (\<forall>n. n \<noteq> ''__proto__'' \<longrightarrow> map_of ?q n = map_of (rev (emitted qs)) n)"
    by (rule conjunct2 [THEN conjunct2])
  from lengthTwice_formatted lengthTwice_emitted u1 u2 l show ?thesis
    by (intro conjI)
qed

lemma quantityEntry_emits:
  assumes "truthy q" and "typeof q = ''object''"
    and "extractValue (get q ''Name'') = JStr n" and "n \<noteq> []"
    and "find (\<lambda>(f, u). get q f \<noteq> JUndefined) valueFields = Some (f, u)"
    and "typeof (extractValue (get q f)) = ''number''"
  shows "quantityEntry q = Inr (Some (n, \<lparr>value = extractValue (get q f), unit = u\<rparr>))"
proof -
  from assms(5) have p: "probe q = (extractValue (get q f), u)"
    by (simp add: probe_refines probe_spec_def)
  from assms(6) have nn: "extractValue (get q f) \<noteq> JNull" by auto
  from p nn assms(1,2,3,4,6) show ?thesis by (simp add: quantityEntry_def)
qed

lemma quantityEntry_Some_iff:
  assumes "quantityEntry q = Inr (Some (n, d))"
  shows "truthy q \<and> typeof q = ''object'' \<and> extractValue (get q ''Name'') = JStr n \<and> n \<noteq> [] \<and>
         typeof (value d) = ''number'' \<and>
         (\<exists>f. find (\<lambda>(f, u). get q f \<noteq> JUndefined) valueFields = Some (f, unit d) \<and>
              value d = extractValue (get q f))"
proof -
  from quantityEntry_probe [OF assms]
  have "probe_spec q = (value d, unit d)" "value d \<noteq> JNull" "typeof (value d) = ''number''"
    by (simp_all add: probe_refines)
  from probe_spec_present [OF this(1,2)] this(3)
  have f: "typeof (value d) = ''number'' \<and>
         (\<exists>f. find (\<lambda>(f, u). get q f \<noteq> JUndefined) valueFields = Some (f, unit d) \<and>
              value d = extractValue (get q f))" by simp
  obtain v u where p: "probe q = (v, u)" by (cases "probe q")
  from assms p have "truthy q \<and> typeof q = ''object'' \<and> extractValue (get q ''Name'') = JStr n \<and> n \<noteq> []"
    by (auto simp: quantityEntry_def split: if_splits jsval.splits sum.splits)
  with f show ?thesis by simp
qed

lemma quantityEntry_no_field:
  assumes "find (\<lambda>(f, u). get q f \<noteq> JUndefined) valueFields = None"
  shows "quantityEntry q \<noteq> Inr (Some e)"
proof
  assume a: "quantityEntry q = Inr (Some e)"
  obtain n d where e: "e = (n, d)" by (cases e)
  from quantityEntry_Some_iff [of q n d] a e assms show False by auto
qed

lemma quantityEntry_no_field_quiet:
  assumes "find (\<lambda>(f, u). get q f \<noteq> JUndefined) valueFields = None" and "typeSearchable q"
  shows "quantityEntry q = Inr None"
proof -
  from quantityEntry_returns [OF assms(2)] obtain r where r: "quantityEntry q = Inr r" by blast
  with quantityEntry_no_field [OF assms(1)] show ?thesis by (cases r) auto
qed

lemma typedArea_entry:
  "quantityEntry typedAreaRecord =
     Inr (Some (''NetSideArea'', \<lparr>value = JNum (Finite 12.5), unit = unit_m2\<rparr>))"
  by (simp add: typedAreaRecord_def quantityEntry_def get_def extractValue_def has_property_def
      probe_def)

lemma emittedSets_Cons:
  "emittedSets (p # ps) =
     (case quantitySet p of Inr (Some e) \<Rightarrow> e # emittedSets ps | _ \<Rightarrow> emittedSets ps)"
  by (simp add: emittedSets_def List.map_filter_simps split: sum.splits option.splits)

lemma formatQuantitySets_loop_last:
  "formatQuantitySets_loop raw acc = Inr result \<Longrightarrow> s \<noteq> ''__proto__'' \<Longrightarrow>
     map_of result s =
       (case map_of (rev (emittedSets raw)) s of Some m \<Rightarrow> Some m | None \<Rightarrow> map_of acc s)"
proof (induction raw arbitrary: acc)
  case Nil
  then show ?case by (simp add: emittedSets_def List.map_filter_simps)
next
  case (Cons p ps)
  show ?case
  proof (cases "quantitySet p")
    case (Inl e)
    with Cons.prems show ?thesis by simp
  next
    case (Inr r)
    show ?thesis
    proof (cases r)
      case None
      with Inr Cons show ?thesis by (simp add: emittedSets_Cons)
    next
      case (Some a)
      obtain k d where a: "a = (k, d)" by (cases a)
      from Inr Some a have qe: "quantitySet p = Inr (Some (k, d))" by simp
      from qe Cons.prems(1) have l: "formatQuantitySets_loop ps (assign k d acc) = Inr result"
        by simp
      from Cons.IH [OF l Cons.prems(2)] qe Cons.prems(2) show ?thesis
        by (auto simp: emittedSets_Cons map_of_assign map_add_def split: option.splits)
    qed
  qed
qed

lemma formatQuantitySets_loop_no_error:
  "formatQuantitySets_loop raw acc = Inr result \<Longrightarrow> p \<in> set raw \<Longrightarrow> \<exists>r. quantitySet p = Inr r"
proof (induction raw arbitrary: acc)
  case Nil
  then show ?case by simp
next
  case (Cons a as)
  then show ?case
    by (cases "quantitySet a") (auto split: option.splits)
qed

lemma quantitiesLoop_no_error:
  "quantitiesLoop qs acc = Inr m \<Longrightarrow> q \<in> set qs \<Longrightarrow> \<exists>r. quantityEntry q = Inr r"
proof (induction qs arbitrary: acc)
  case Nil
  then show ?case by simp
next
  case (Cons a as)
  then show ?case
    by (cases "quantityEntry a") (auto split: option.splits)
qed

lemma map_of_unique_value:
  assumes "(n, d) \<in> set xs" and "\<forall>e \<in> set xs. fst e = n \<longrightarrow> snd e = d"
  shows "map_of xs n = Some d"
proof (cases "map_of xs n")
  case None
  with assms(1) show ?thesis by (auto simp: map_of_eq_None_iff image_iff)
next
  case (Some v)
  then have "(n, v) \<in> set xs" by (rule map_of_SomeD)
  with assms(2) Some show ?thesis by auto
qed

lemma emitted_member:
  "e \<in> set (emitted qs) \<longleftrightarrow> (\<exists>q \<in> set qs. quantityEntry q = Inr (Some e))"
  by (induction qs) (auto simp: emitted_Cons emitted_def List.map_filter_simps split: sum.splits option.splits)

lemma emittedSets_member:
  "e \<in> set (emittedSets raw) \<longleftrightarrow> (\<exists>p \<in> set raw. quantitySet p = Inr (Some e))"
  by (induction raw) (auto simp: emittedSets_Cons emittedSets_def List.map_filter_simps split: sum.splits option.splits)

lemma quantitySet_qualifies:
  assumes "truthy pset" and "typeof pset = ''object''"
    and "get pset ''type'' = JStr ''IfcElementQuantity''"
    and "extractValue (get pset ''Name'') = JStr s" and "s \<noteq> []"
    and "get pset ''Quantities'' = JArr qs"
  shows "quantitySet pset =
           (case quantitiesLoop qs [] of
              Inl e \<Rightarrow> Inl e
            | Inr m \<Rightarrow> if m \<noteq> [] then Inr (Some (s, m)) else Inr None)"
  using assms by (simp add: quantitySet_def split: sum.splits)

lemma formatQuantitySets_emits:
  assumes res: "formatQuantitySets raw = Inr result"
    and pset: "pset \<in> set raw" "truthy pset" "typeof pset = ''object''"
      "get pset ''type'' = JStr ''IfcElementQuantity''"
      "extractValue (get pset ''Name'') = JStr s" "s \<noteq> []" "s \<noteq> ''__proto__''"
      "get pset ''Quantities'' = JArr qs"
    and only_pset: "\<forall>p \<in> set raw. extractValue (get p ''Name'') = JStr s \<longrightarrow> p = pset"
    and q: "q \<in> set qs" "truthy q" "typeof q = ''object''"
      "extractValue (get q ''Name'') = JStr n" "n \<noteq> []" "n \<noteq> ''__proto__''"
      "find (\<lambda>(f, u). get q f \<noteq> JUndefined) valueFields = Some (f, u)"
      "typeof (extractValue (get q f)) = ''number''"
    and only_q: "\<forall>q' \<in> set qs. extractValue (get q' ''Name'') = JStr n \<longrightarrow> q' = q"
  shows "\<exists>m. map_of result s = Some m \<and>
             map_of m n = Some \<lparr>value = extractValue (get q f), unit = u\<rparr>"
proof -
  let ?d = "\<lparr>value = extractValue (get q f), unit = u\<rparr>"
  from res have loop: "formatQuantitySets_loop raw [] = Inr result"
    by (simp add: formatQuantitySets_def)
  from formatQuantitySets_loop_no_error [OF loop pset(1)]
  obtain r where r: "quantitySet pset = Inr r" by blast
  with quantitySet_qualifies [OF pset(2,3,4,5,6,8)]
  obtain m where m: "quantitiesLoop qs [] = Inr m"
    and r': "r = (if m \<noteq> [] then Some (s, m) else None)"
    by (cases "quantitiesLoop qs []") (auto split: if_splits)
  have qe: "quantityEntry q = Inr (Some (n, ?d))"
    by (rule quantityEntry_emits [OF q(2,3,4,5,7,8)])
  have in_em: "(n, ?d) \<in> set (rev (emitted qs))"
    using qe q(1) by (auto simp: emitted_member)
  have uniq: "\<forall>e \<in> set (rev (emitted qs)). fst e = n \<longrightarrow> snd e = ?d"
  proof (intro ballI impI)
    fix e assume e: "e \<in> set (rev (emitted qs))" and k: "fst e = n"
    then obtain q' where q': "q' \<in> set qs" "quantityEntry q' = Inr (Some e)"
      by (auto simp: emitted_member)
    obtain k' d' where kd: "e = (k', d')" by (cases e)
    from quantityEntry_Some_iff [of q' k' d'] q'(2) kd k
    have "extractValue (get q' ''Name'') = JStr n" by simp
    with only_q q'(1) have "q' = q" by blast
    with q'(2) qe have "e = (n, ?d)" by simp
    then show "snd e = ?d" by simp
  qed
  from map_of_unique_value [OF in_em uniq]
  have "map_of (rev (emitted qs)) n = Some ?d" .
  with quantitiesLoop_last [OF m q(6)] have mn: "map_of m n = Some ?d" by simp
  then have "m \<noteq> []" by auto
  with r r' have qs: "quantitySet pset = Inr (Some (s, m))" by simp
  have in_sets: "(s, m) \<in> set (rev (emittedSets raw))"
    using qs pset(1) by (auto simp: emittedSets_member)
  have uniq_sets: "\<forall>e \<in> set (rev (emittedSets raw)). fst e = s \<longrightarrow> snd e = m"
  proof (intro ballI impI)
    fix e assume e: "e \<in> set (rev (emittedSets raw))" and k: "fst e = s"
    then obtain p where p: "p \<in> set raw" "quantitySet p = Inr (Some e)"
      by (auto simp: emittedSets_member)
    obtain k' m' where km: "e = (k', m')" by (cases e)
    from quantitySet_Some [of p k' m'] p(2) km k
    have "extractValue (get p ''Name'') = JStr s" by auto
    with only_pset p(1) have "p = pset" by blast
    with p(2) qs have "e = (s, m)" by simp
    then show "snd e = m" by simp
  qed
  from map_of_unique_value [OF in_sets uniq_sets]
  have "map_of (rev (emittedSets raw)) s = Some m" .
  with formatQuantitySets_loop_last [OF loop pset(7)] have "map_of result s = Some m" by simp
  with mn show ?thesis by blast
qed

text \<open>
  Claim C9. The value selection of the code is the ordered table of the specification: the
  first of LengthValue, AreaValue, VolumeValue, WeightValue, CountValue, TimeValue that is
  present (not \<^verbatim>\<open>undefined\<close>) is selected. A quantity sub-record is emitted exactly when it
  is an object with a non-empty string name whose selected field extracts to a number, and
  then with that number and the unit of the selected field, whatever its \<^verbatim>\<open>type\<close> is. The
  formatter returns it under its set and its name, for every input in which no other record
  bears the name of the set and no other sub-record of the set the name of the quantity. A
  sub-record with no value field is never emitted. A record with AreaValue 12.5, bare or
  wrapped and typed, is emitted with value 12.5 and the square metre as unit. A record with
  no value field and the type \<^verbatim>\<open>Qto_WallBaseQuantities.Height\<close> is dropped, although
  \<^verbatim>\<open>getQuantityUnit\<close> gives m for that type.
\<close>

theorem quantity_value_probing:
  "(\<forall>q. probe q = probe_spec q) \<and>
   (\<forall>q n f u.
      truthy q \<and> typeof q = ''object'' \<and> extractValue (get q ''Name'') = JStr n \<and> n \<noteq> [] \<and>
      find (\<lambda>(f, u). get q f \<noteq> JUndefined) valueFields = Some (f, u) \<and>
      typeof (extractValue (get q f)) = ''number'' \<longrightarrow>
        quantityEntry q = Inr (Some (n, \<lparr>value = extractValue (get q f), unit = u\<rparr>)) \<and>
        (n \<noteq> ''__proto__'' \<longrightarrow>
           formatQuantitySets [qset [q]] =
             Inr [(''Qto_WallBaseQuantities'',
                   [(n, \<lparr>value = extractValue (get q f), unit = u\<rparr>)])])) \<and>
   (\<forall>raw result pset s qs q n f u.
      formatQuantitySets raw = Inr result \<and>
      pset \<in> set raw \<and> truthy pset \<and> typeof pset = ''object'' \<and>
      get pset ''type'' = JStr ''IfcElementQuantity'' \<and>
      extractValue (get pset ''Name'') = JStr s \<and> s \<noteq> [] \<and> s \<noteq> ''__proto__'' \<and>
      get pset ''Quantities'' = JArr qs \<and>
      (\<forall>p \<in> set raw. extractValue (get p ''Name'') = JStr s \<longrightarrow> p = pset) \<and>
      q \<in> set qs \<and> truthy q \<and> typeof q = ''object'' \<and>
      extractValue (get q ''Name'') = JStr n \<and> n \<noteq> [] \<and> n \<noteq> ''__proto__'' \<and>
      find (\<lambda>(f, u). get q f \<noteq> JUndefined) valueFields = Some (f, u) \<and>
      typeof (extractValue (get q f)) = ''number'' \<and>
      (\<forall>q' \<in> set qs. extractValue (get q' ''Name'') = JStr n \<longrightarrow> q' = q) \<longrightarrow>
        (\<exists>m. map_of result s = Some m \<and>
             map_of m n = Some \<lparr>value = extractValue (get q f), unit = u\<rparr>)) \<and>
   (\<forall>q n d. quantityEntry q = Inr (Some (n, d)) \<longrightarrow>
      truthy q \<and> typeof q = ''object'' \<and> extractValue (get q ''Name'') = JStr n \<and> n \<noteq> [] \<and>
      typeof (value d) = ''number'' \<and>
      (\<exists>f. find (\<lambda>(f, u). get q f \<noteq> JUndefined) valueFields = Some (f, unit d) \<and>
           value d = extractValue (get q f))) \<and>
   (\<forall>q. find (\<lambda>(f, u). get q f \<noteq> JUndefined) valueFields = None \<longrightarrow>
      (\<forall>e. quantityEntry q \<noteq> Inr (Some e)) \<and>
      (typeSearchable q \<longrightarrow>
         quantityEntry q = Inr None \<and> formatQuantitySets [qset [q]] = Inr [])) \<and>
   formatQuantitySets [qset [areaRecord]] =
     Inr [(''Qto_WallBaseQuantities'',
           [(''NetSideArea'', \<lparr>value = JNum (Finite 12.5), unit = unit_m2\<rparr>)])] \<and>
   formatQuantitySets [qset [typedAreaRecord]] =
     Inr [(''Qto_WallBaseQuantities'',
           [(''NetSideArea'', \<lparr>value = JNum (Finite 12.5), unit = unit_m2\<rparr>)])] \<and>
   getQuantityUnit ''Qto_WallBaseQuantities.Height'' = ''m'' \<and>
   formatQuantitySets [qset [heightRecord]] = Inr []"
proof (intro conjI allI impI)
  fix q show "probe q = probe_spec q" by (rule probe_refines)
next
  fix q n f u
  assume a: "truthy q \<and> typeof q = ''object'' \<and> extractValue (get q ''Name'') = JStr n \<and> n \<noteq> [] \<and>
      find (\<lambda>(f, u). get q f \<noteq> JUndefined) valueFields = Some (f, u) \<and>
      typeof (extractValue (get q f)) = ''number''"
  then show e: "quantityEntry q = Inr (Some (n, \<lparr>value = extractValue (get q f), unit = u\<rparr>))"
    using quantityEntry_emits [of q n f u] by blast
  assume "n \<noteq> ''__proto__''"
  with qset_single [OF e]
  show "formatQuantitySets [qset [q]] =
             Inr [(''Qto_WallBaseQuantities'',
                   [(n, \<lparr>value = extractValue (get q f), unit = u\<rparr>)])]" by simp
next
  fix raw result pset s qs q n f u
  assume a: "formatQuantitySets raw = Inr result \<and>
      pset \<in> set raw \<and> truthy pset \<and> typeof pset = ''object'' \<and>
      get pset ''type'' = JStr ''IfcElementQuantity'' \<and>
      extractValue (get pset ''Name'') = JStr s \<and> s \<noteq> [] \<and> s \<noteq> ''__proto__'' \<and>
      get pset ''Quantities'' = JArr qs \<and>
      (\<forall>p \<in> set raw. extractValue (get p ''Name'') = JStr s \<longrightarrow> p = pset) \<and>
      q \<in> set qs \<and> truthy q \<and> typeof q = ''object'' \<and>
      extractValue (get q ''Name'') = JStr n \<and> n \<noteq> [] \<and> n \<noteq> ''__proto__'' \<and>
      find (\<lambda>(f, u). get q f \<noteq> JUndefined) valueFields = Some (f, u) \<and>
      typeof (extractValue (get q f)) = ''number'' \<and>
      (\<forall>q' \<in> set qs. extractValue (get q' ''Name'') = JStr n \<longrightarrow> q' = q)"
  show "\<exists>m. map_of result s = Some m \<and>
             map_of m n = Some \<lparr>value = extractValue (get q f), unit = u\<rparr>"
    by (rule formatQuantitySets_emits [of raw result pset s qs q n f u]) (use a in blast)+
next
  fix q n d assume a: "quantityEntry q = Inr (Some (n, d))"
  note s = quantityEntry_Some_iff [OF a]
  from s show "truthy q" by simp
  from s show "typeof q = ''object''" by simp
  from s show "extractValue (get q ''Name'') = JStr n" by simp
  from s show "n \<noteq> []" by simp
  from s show "typeof (value d) = ''number''" by simp
  from s show "\<exists>f. find (\<lambda>(f, u). get q f \<noteq> JUndefined) valueFields = Some (f, unit d) \<and>
           value d = extractValue (get q f)" by simp
next
  fix q e assume "find (\<lambda>(f, u). get q f \<noteq> JUndefined) valueFields = None"
  from quantityEntry_no_field [OF this] show "quantityEntry q \<noteq> Inr (Some e)" .
next
  fix q assume n: "find (\<lambda>(f, u). get q f \<noteq> JUndefined) valueFields = None"
    and t: "typeSearchable q"
  from quantityEntry_no_field_quiet [OF n t] show "quantityEntry q = Inr None" .
  from qset_none [OF quantityEntry_no_field_quiet [OF n t]]
  show "formatQuantitySets [qset [q]] = Inr []" .
next
  show "formatQuantitySets [qset [areaRecord]] =
     Inr [(''Qto_WallBaseQuantities'',
           [(''NetSideArea'', \<lparr>value = JNum (Finite 12.5), unit = unit_m2\<rparr>)])]"
    using qset_single [OF area_entry] by simp
next
  show "formatQuantitySets [qset [typedAreaRecord]] =
     Inr [(''Qto_WallBaseQuantities'',
           [(''NetSideArea'', \<lparr>value = JNum (Finite 12.5), unit = unit_m2\<rparr>)])]"
    using qset_single [OF typedArea_entry] by simp
next
  show "getQuantityUnit ''Qto_WallBaseQuantities.Height'' = ''m''"
    by (simp add: getQuantityUnit_def unitChain_def)
next
  show "formatQuantitySets [qset [heightRecord]] = Inr []"
    by (rule qset_none [OF height_entry])
qed

theorem quantity_value_probing_witness:
  "truthy typedAreaRecord \<and> typeof typedAreaRecord = ''object'' \<and>
   extractValue (get typedAreaRecord ''Name'') = JStr ''NetSideArea'' \<and>
   find (\<lambda>(f, u). get typedAreaRecord f \<noteq> JUndefined) valueFields
     = Some (''AreaValue'', unit_m2) \<and>
   extractValue (get typedAreaRecord ''AreaValue'') = JNum (Finite 12.5) \<and>
   quantityEntry typedAreaRecord =
     Inr (Some (''NetSideArea'', \<lparr>value = JNum (Finite 12.5), unit = unit_m2\<rparr>))"
proof -
  have a: "truthy typedAreaRecord" "typeof typedAreaRecord = ''object''"
    by (simp_all add: typedAreaRecord_def)
  have b: "extractValue (get typedAreaRecord ''Name'') = JStr ''NetSideArea''"
    by (simp add: typedAreaRecord_def get_def extractValue_def has_property_def)
  have c: "find (\<lambda>(f, u). get typedAreaRecord f \<noteq> JUndefined) valueFields
             = Some (''AreaValue'', unit_m2)"
    by (simp add: valueFields_def typedAreaRecord_def get_def)
  have d: "extractValue (get typedAreaRecord ''AreaValue'') = JNum (Finite 12.5)"
    by (simp add: typedAreaRecord_def get_def extractValue_def has_property_def)
  have e: "typeof (extractValue (get typedAreaRecord ''AreaValue'')) = ''number''"
    unfolding d by simp
  have n: "''NetSideArea'' \<noteq> []" by simp
  from quantity_value_probing have
    "\<forall>q n f u.
      truthy q \<and> typeof q = ''object'' \<and> extractValue (get q ''Name'') = JStr n \<and> n \<noteq> [] \<and>
      find (\<lambda>(f, u). get q f \<noteq> JUndefined) valueFields = Some (f, u) \<and>
      typeof (extractValue (get q f)) = ''number'' \<longrightarrow>
        quantityEntry q = Inr (Some (n, \<lparr>value = extractValue (get q f), unit = u\<rparr>)) \<and>
        (n \<noteq> ''__proto__'' \<longrightarrow>
           formatQuantitySets [qset [q]] =
             Inr [(''Qto_WallBaseQuantities'',
                   [(n, \<lparr>value = extractValue (get q f), unit = u\<rparr>)])])"
    by (rule conjunct2 [THEN conjunct1])
  from this [rule_format, of typedAreaRecord "''NetSideArea''" "''AreaValue''" unit_m2] a b c e n
  have "quantityEntry typedAreaRecord =
     Inr (Some (''NetSideArea'',
           \<lparr>value = extractValue (get typedAreaRecord ''AreaValue''), unit = unit_m2\<rparr>))"
    by blast
  with a b c d show ?thesis by simp
qed

lemma quantityEntry_null_dropped:
  assumes "find (\<lambda>(f, u). get q f \<noteq> JUndefined) valueFields = Some (f, u)"
    and "extractValue (get q f) = JNull"
  shows "quantityEntry q \<noteq> Inr (Some e)"
proof
  assume a: "quantityEntry q = Inr (Some e)"
  obtain n d where e: "e = (n, d)" by (cases e)
  from quantityEntry_probe [of q n d] a e
  have "probe_spec q = (value d, unit d)" "value d \<noteq> JNull" by (simp_all add: probe_refines)
  with assms show False by (simp add: probe_spec_def)
qed

lemma quantityEntry_null_dropped_quiet:
  assumes "find (\<lambda>(f, u). get q f \<noteq> JUndefined) valueFields = Some (f, u)"
    and "extractValue (get q f) = JNull"
    and "typeof (get q ''type'') = ''string'' \<or> \<not> truthy (get q ''type'')"
  shows "quantityEntry q = Inr None"
proof -
  from assms(1,2) have p: "probe q = (JNull, u)" by (simp add: probe_refines probe_spec_def)
  from assms(3) have "\<not> truthy (get q ''type'') \<or> (\<exists>t. get q ''type'' = JStr t)"
    by (cases "get q ''type''") auto
  with p show ?thesis
    by (auto simp: quantityEntry_def split: jsval.splits)
qed

lemma quantityEntry_wrapped_zero:
  assumes "find (\<lambda>(f, u). get q f \<noteq> JUndefined) valueFields = Some (f, u)"
    and "get q f = JObj kvs" and "map_of kvs ''value'' = Some (JNum (Finite 0))"
    and "typeof q = ''object''" and "extractValue (get q ''Name'') = JStr n" and "n \<noteq> []"
  shows "quantityEntry q = Inr (Some (n, \<lparr>value = JNum (Finite 0), unit = u\<rparr>))"
proof -
  have "extractValue (get q f) = JNum (Finite 0)"
    unfolding assms(2) using assms(3) by (simp add: extractValue_def has_property_def get_def)
  with assms(1) have p: "probe q = (JNum (Finite 0), u)"
    by (simp add: probe_refines probe_spec_def)
  from assms(4,5) have "truthy q" by (cases q) (auto simp: get_def extractValue_def)
  with p assms(4,5,6) show ?thesis by (simp add: quantityEntry_def)
qed

lemma extractValue_zero: "extractValue (JNum (Finite 0)) = JNull"
  by (simp add: extractValue_def)

text \<open>
  Claim C10. Let \<open>f\<close> be the value field selected for a quantity sub-record (the first one
  present). If \<open>f\<close> holds the bare number 0, or any value that extracts to \<^verbatim>\<open>null\<close>, no
  quantity is emitted for the sub-record (and nothing else happens, where its \<^verbatim>\<open>type\<close> is a
  string or falsy). If \<open>f\<close> holds an object whose \<^verbatim>\<open>value\<close> member is 0, the quantity is
  emitted with value 0 and the unit of \<open>f\<close>. So the formatter drops a record with
  \<^verbatim>\<open>LengthValue: 0\<close> and emits one with \<^verbatim>\<open>LengthValue: {value: 0}\<close>.
\<close>

theorem zero_value_field:
  assumes "find (\<lambda>(f, u). get q f \<noteq> JUndefined) valueFields = Some (f, u)"
  shows "(get q f = JNum (Finite 0) \<or> extractValue (get q f) = JNull \<longrightarrow>
            (\<forall>e. quantityEntry q \<noteq> Inr (Some e)) \<and>
            (typeof (get q ''type'') = ''string'' \<or> \<not> truthy (get q ''type'') \<longrightarrow>
               quantityEntry q = Inr None)) \<and>
         (get q f = JObj kvs \<and> map_of kvs ''value'' = Some (JNum (Finite 0)) \<and>
          typeof q = ''object'' \<and> extractValue (get q ''Name'') = JStr n \<and> n \<noteq> [] \<longrightarrow>
            quantityEntry q = Inr (Some (n, \<lparr>value = JNum (Finite 0), unit = u\<rparr>))) \<and>
         formatQuantitySets [qset [bareZeroRecord]] = Inr [] \<and>
         formatQuantitySets [qset [wrappedZeroRecord]] =
           Inr [(''Qto_WallBaseQuantities'',
                 [(''Width'', \<lparr>value = JNum (Finite 0), unit = ''m''\<rparr>)])]"
proof (intro conjI impI allI)
  fix e assume "get q f = JNum (Finite 0) \<or> extractValue (get q f) = JNull"
  then have "extractValue (get q f) = JNull" by (auto simp: extractValue_zero)
  from quantityEntry_null_dropped [OF assms this] show "quantityEntry q \<noteq> Inr (Some e)" .
next
  assume "get q f = JNum (Finite 0) \<or> extractValue (get q f) = JNull"
    and t: "typeof (get q ''type'') = ''string'' \<or> \<not> truthy (get q ''type'')"
  then have "extractValue (get q f) = JNull" by (auto simp: extractValue_zero)
  from quantityEntry_null_dropped_quiet [OF assms this t] show "quantityEntry q = Inr None" .
next
  assume "get q f = JObj kvs \<and> map_of kvs ''value'' = Some (JNum (Finite 0)) \<and>
          typeof q = ''object'' \<and> extractValue (get q ''Name'') = JStr n \<and> n \<noteq> []"
  with quantityEntry_wrapped_zero [OF assms, of kvs n]
  show "quantityEntry q = Inr (Some (n, \<lparr>value = JNum (Finite 0), unit = u\<rparr>))" by blast
next
  show "formatQuantitySets [qset [bareZeroRecord]] = Inr []"
    by (rule qset_none [OF bareZero_entry])
next
  show "formatQuantitySets [qset [wrappedZeroRecord]] =
           Inr [(''Qto_WallBaseQuantities'',
                 [(''Width'', \<lparr>value = JNum (Finite 0), unit = ''m''\<rparr>)])]"
    using qset_single [OF wrappedZero_entry] by simp
qed

theorem zero_value_field_witness:
  "find (\<lambda>(f, u). get bareZeroRecord f \<noteq> JUndefined) valueFields = Some (''LengthValue'', ''m'') \<and>
   get bareZeroRecord ''LengthValue'' = JNum (Finite 0) \<and>
   \<not> truthy (get bareZeroRecord ''type'') \<and>
   quantityEntry bareZeroRecord = Inr None"
proof -
  have f: "find (\<lambda>(f, u). get bareZeroRecord f \<noteq> JUndefined) valueFields
             = Some (''LengthValue'', ''m'')"
    by (simp add: valueFields_def bareZeroRecord_def get_def)
  have z: "get bareZeroRecord ''LengthValue'' = JNum (Finite 0)"
    by (simp add: bareZeroRecord_def get_def)
  have t: "\<not> truthy (get bareZeroRecord ''type'')"
    by (simp add: bareZeroRecord_def get_def)
  from zero_value_field [OF f] z t f show ?thesis by blast
qed

section \<open>Properties of the property-set formatter\<close>

lemma hasPropertiesLoop_Cons:
  "hasPropertiesLoop (p # ps) props =
     hasPropertiesLoop ps (case subProperty p of Some (n, v) \<Rightarrow> assign n v props | None \<Rightarrow> props)"
  by (auto simp: subProperty_def Let_def split: jsval.splits)

lemma subProperties_Cons:
  "subProperties (p # ps) =
     (case subProperty p of Some e \<Rightarrow> e # subProperties ps | None \<Rightarrow> subProperties ps)"
  by (simp add: subProperties_def List.map_filter_simps split: option.splits)

lemma hasPropertiesLoop_last:
  "k \<noteq> ''__proto__'' \<Longrightarrow>
   map_of (hasPropertiesLoop hs props) k =
     (case map_of (rev (subProperties hs)) k of Some x \<Rightarrow> Some x | None \<Rightarrow> map_of props k)"
proof (induction hs arbitrary: props)
  case Nil
  then show ?case by (simp add: subProperties_def List.map_filter_simps)
next
  case (Cons p ps)
  show ?case
  proof (cases "subProperty p")
    case None
    with Cons.IH [OF Cons.prems, of props] show ?thesis
      by (simp only: hasPropertiesLoop_Cons subProperties_Cons option.case)
  next
    case (Some e)
    obtain n v where e: "e = (n, v)" by (cases e)
    have "map_of (hasPropertiesLoop (p # ps) props) k = map_of (hasPropertiesLoop ps (assign n v props)) k"
      using Some e by (simp only: hasPropertiesLoop_Cons option.case prod.case)
    also have "\<dots> = (case map_of (rev (subProperties ps)) k of Some x \<Rightarrow> Some x
                      | None \<Rightarrow> map_of (assign n v props) k)"
      by (rule Cons.IH [OF Cons.prems])
    finally show ?thesis
      using Some e Cons.prems
      by (auto simp: subProperties_Cons map_of_assign map_add_def split: option.splits)
  qed
qed

lemma directPropertiesLoop_structural:
  "k \<in> set structuralKeys \<Longrightarrow> map_of (directPropertiesLoop kvs props) k = map_of props k"
proof (induction kvs props rule: directPropertiesLoop.induct)
  case (1 props)
  then show ?case by simp
next
  case (2 key v kvs props)
  show ?case
  proof (cases "key \<in> set structuralKeys")
    case True
    with 2 show ?thesis by simp
  next
    case False
    note nk = False
    with "2.prems" have ne: "k \<noteq> key" by auto
    show ?thesis
    proof (cases "extractValue v \<noteq> JNull \<and> typeof (extractValue v) \<noteq> ''object''")
      case True
      from "2.IH"(2) [OF nk refl True "2.prems"] nk True ne show ?thesis
        by (simp add: Let_def map_of_assign)
    next
      case False
      from "2.IH"(3) [OF nk refl False "2.prems"] nk False show ?thesis
        by (auto simp: Let_def)
    qed
  qed
qed

lemma structuralKeys_not_proto: "k \<in> set structuralKeys \<Longrightarrow> k \<noteq> ''__proto__''"
  by (auto simp: structuralKeys_def)

lemma propertySet_structural_value:
  assumes "propertySet pset = Some (s, props)" and "k \<in> set structuralKeys"
  shows "map_of props k = map_of (rev (subProperties (array (get pset ''HasProperties'')))) k"
proof -
  define props0 where
    "props0 = (case get pset ''HasProperties'' of JArr hs \<Rightarrow> hasPropertiesLoop hs [] | _ \<Rightarrow> [])"
  from assms(1) have "props = directPropertiesLoop (entries pset) props0"
    by (auto simp: propertySet_def props0_def Let_def split: if_splits jsval.splits)
  with directPropertiesLoop_structural [OF assms(2)] have 1: "map_of props k = map_of props0 k"
    by simp
  have "props0 = hasPropertiesLoop (array (get pset ''HasProperties'')) []"
    by (cases "get pset ''HasProperties''") (simp_all add: props0_def array_def)
  with hasPropertiesLoop_last [OF structuralKeys_not_proto [OF assms(2)], of _ "[]"]
  have "map_of props0 k = map_of (rev (subProperties (array (get pset ''HasProperties'')))) k"
    by (simp split: option.splits)
  with 1 show ?thesis by simp
qed

lemma formatPropertySets_loop_origin:
  "(s, m) \<in> set (formatPropertySets_loop raw acc) \<Longrightarrow>
     (s, m) \<in> set acc \<or> (\<exists>pset \<in> set raw. propertySet pset = Some (s, m))"
proof (induction raw arbitrary: acc)
  case Nil
  then show ?case by simp
next
  case (Cons p ps)
  show ?case
  proof (cases "propertySet p")
    case None
    with Cons show ?thesis by auto
  next
    case (Some a)
    obtain k d where a: "a = (k, d)" by (cases a)
    from Some a Cons.prems have "(s, m) \<in> set (formatPropertySets_loop ps (assign k d acc))"
      by simp
    from Cons.IH [OF this] set_assign_subset [of k d acc] Some a show ?thesis by auto
  qed
qed

lemma descriptionPset_formatted:
  "formatPropertySets [descriptionPset] =
     [(''Pset_WallCommon'', [(''Description'', JStr ''Exterior wall'')])]"
  by (simp add: formatPropertySets_def propertySet_def descriptionPset_def get_def
      extractValue_def has_property_def or_else_def assign_def structuralKeys_def)

lemma bothPset_formatted:
  "formatPropertySets [bothPset] =
     [(''Pset_WallCommon'', [(''Description'', JStr ''sub''), (''Reference'', JStr ''W-01'')])]"
  by (simp add: formatPropertySets_def propertySet_def bothPset_def get_def
      extractValue_def has_property_def or_else_def assign_def structuralKeys_def)

lemma bothPset_subProperties:
  "subProperties (array (get bothPset ''HasProperties'')) = [(''Description'', JStr ''sub'')]"
  by (simp add: subProperties_def List.map_filter_simps subProperty_def bothPset_def get_def array_def
      extractValue_def has_property_def)

text \<open>
  Claim C7, as the code has it. The list of six structural keys is applied to the direct
  fields of a set record only. Every emitted mapping is the mapping of a record of the
  input, and what it holds under each of the six keys is exactly what the sub-records of
  \<^verbatim>\<open>HasProperties\<close> of that record write under the key, the last one winning: no direct
  field of the record adds, replaces or removes a property of such a name.
\<close>

theorem structural_keys_only_from_HasProperties:
  assumes "(psetName, props) \<in> set (formatPropertySets rawPsets)"
  shows "\<exists>pset \<in> set rawPsets.
           propertySet pset = Some (psetName, props) \<and>
           (\<forall>key \<in> set structuralKeys.
              map_of props key =
                map_of (rev (subProperties (array (get pset ''HasProperties'')))) key)"
proof -
  from assms formatPropertySets_loop_origin [of psetName props rawPsets "[]"]
  obtain pset where p: "pset \<in> set rawPsets" "propertySet pset = Some (psetName, props)"
    by (auto simp: formatPropertySets_def)
  from propertySet_structural_value [OF p(2)] p show ?thesis by blast
qed

theorem structural_keys_only_from_HasProperties_witness:
  "formatPropertySets [bothPset] =
     [(''Pset_WallCommon'', [(''Description'', JStr ''sub''), (''Reference'', JStr ''W-01'')])] \<and>
   get bothPset ''Description'' = JStr ''direct'' \<and>
   subProperties (array (get bothPset ''HasProperties'')) = [(''Description'', JStr ''sub'')] \<and>
   (\<exists>pset \<in> set [bothPset].
      propertySet pset =
        Some (''Pset_WallCommon'',
              [(''Description'', JStr ''sub''), (''Reference'', JStr ''W-01'')]) \<and>
      map_of [(''Description'', JStr ''sub''), (''Reference'', JStr ''W-01'')] ''Description'' =
        map_of (rev (subProperties (array (get pset ''HasProperties'')))) ''Description'')"
proof -
  have a: "(''Pset_WallCommon'', [(''Description'', JStr ''sub''), (''Reference'', JStr ''W-01'')])
             \<in> set (formatPropertySets [bothPset])"
    by (simp add: bothPset_formatted)
  have b: "''Description'' \<in> set structuralKeys" by (simp add: structuralKeys_def)
  have c: "get bothPset ''Description'' = JStr ''direct''" by (simp add: bothPset_def get_def)
  from structural_keys_only_from_HasProperties [OF a] b
  have "\<exists>pset \<in> set [bothPset].
      propertySet pset =
        Some (''Pset_WallCommon'',
              [(''Description'', JStr ''sub''), (''Reference'', JStr ''W-01'')]) \<and>
      map_of [(''Description'', JStr ''sub''), (''Reference'', JStr ''W-01'')] ''Description'' =
        map_of (rev (subProperties (array (get pset ''HasProperties'')))) ''Description''"
    by blast
  with bothPset_formatted c bothPset_subProperties show ?thesis by (intro conjI)
qed

text \<open>
  Claim C7, as the specification states it, fails: a property set whose \<^verbatim>\<open>HasProperties\<close>
  holds a property named \<^verbatim>\<open>Description\<close> is emitted with that property.
\<close>

theorem formatPropertySets_Description_counterexample:
  "formatPropertySets [descriptionPset] =
     [(''Pset_WallCommon'', [(''Description'', JStr ''Exterior wall'')])] \<and>
   ''Description'' \<in> set structuralKeys"
  by (simp add: descriptionPset_formatted structuralKeys_def)

section \<open>Properties of the element resolver\<close>

lemma directAttributesLoop_map_of:
  "distinct (map fst kvs) \<Longrightarrow> (\<forall>k \<in> fst ` set kvs. map_of attrs k = None) \<Longrightarrow>
   map_of (directAttributesLoop kvs attrs) k =
     (case map_of kvs k of
        Some v \<Rightarrow>
          if k \<notin> set skipKeys \<and> k \<noteq> ''__proto__'' \<and> v \<noteq> JNull \<and> v \<noteq> JUndefined \<and>
             extractValue v \<noteq> JNull
          then Some (extractValue v) else None
      | None \<Rightarrow> map_of attrs k)"
proof (induction kvs attrs rule: directAttributesLoop.induct)
  case (1 attrs)
  then show ?case by simp
next
  case (2 key v kvs attrs)
  have d: "distinct (map fst kvs)" and nk: "key \<notin> fst ` set kvs" using "2.prems"(1) by auto
  have nk': "map_of kvs key = None" using nk by (simp add: map_of_eq_None_iff)
  have a0: "map_of attrs key = None" using "2.prems"(2) by simp
  have a1: "\<forall>k \<in> fst ` set kvs. map_of attrs k = None" using "2.prems"(2) by simp
  show ?case
  proof (cases "key \<notin> set skipKeys \<and> v \<noteq> JNull \<and> v \<noteq> JUndefined")
    case True
    note c1 = True
    show ?thesis
    proof (cases "extractValue v \<noteq> JNull")
      case True
      have a2: "\<forall>k \<in> fst ` set kvs. map_of (assign key (extractValue v) attrs) k = None"
        using a1 nk by (auto simp: map_of_assign)
      from "2.IH"(1) [OF c1 refl True d a2] c1 True nk' a0 show ?thesis
        by (auto simp: map_of_assign Let_def split: option.splits)
    next
      case False
      from "2.IH"(2) [OF c1 refl False d a1] c1 False nk' a0 show ?thesis
        by (auto simp: Let_def split: option.splits)
    qed
  next
    case False
    from "2.IH"(3) [OF False d a1] False nk' a0 show ?thesis
      by (auto split: option.splits)
  qed
qed

lemma typeLoop_last:
  "typeLoop rels label = Inr t \<Longrightarrow>
     t = (if relationNames rels = [] then label else Some (last (relationNames rels)))"
proof (induction rels arbitrary: label)
  case Nil
  then show ?case by (simp add: relationNames_def)
next
  case (Cons rel rels)
  let ?tn = "extractValue (get rel ''Name'')"
  from Cons.prems have l: "typeLoop rels (if truthy ?tn then Some ?tn else label) = Inr t"
    by (auto simp: Let_def split: if_splits)
  from Cons.IH [OF l]
  have t: "t = (if relationNames rels = [] then (if truthy ?tn then Some ?tn else label)
                else Some (last (relationNames rels)))" .
  have r: "relationNames (rel # rels) =
             (if truthy ?tn then ?tn # relationNames rels else relationNames rels)"
    by (simp add: relationNames_def)
  from t r show ?case by simp
qed

lemma resolveElement_Inr:
  assumes "resolveElement elementId item = Inr vm"
  shows "directAttributes vm = directAttributesLoop item [] \<and>
         (case get (JObj item) ''IsTypedBy'' of JArr rels \<Rightarrow> typeLoop rels None | _ \<Rightarrow> Inr None)
           = Inr (typeInfo vm)"
  using assms
  by (auto simp: resolveElement_def Let_def split: sum.splits)

text \<open>
  An element is resolved where no relation array holds a \<^verbatim>\<open>null\<close> or \<^verbatim>\<open>undefined\<close> entry
  and the quantity formatter returns.
\<close>

lemma typeLoop_returns:
  "\<forall>rel \<in> set rels. \<not> nullish rel \<Longrightarrow> \<exists>t. typeLoop rels label = Inr t"
  by (induction rels arbitrary: label) (auto simp: Let_def)

lemma containerLoop_returns:
  "\<forall>rel \<in> set rels. \<not> nullish rel \<Longrightarrow> \<exists>t. containerLoop rels = Inr t"
  by (induction rels) (auto simp: Let_def)

lemma materialsLoop_returns:
  "\<forall>rel \<in> set rels. \<not> nullish rel \<Longrightarrow> \<exists>t. materialsLoop rels mats = Inr t"
  by (induction rels arbitrary: mats) (auto simp: Let_def)

lemma resolveElement_returns:
  assumes "\<forall>rel \<in> set (array (get (JObj item) ''IsTypedBy'')). \<not> nullish rel"
    and "\<forall>rel \<in> set (array (get (JObj item) ''ContainedInStructure'')). \<not> nullish rel"
    and "\<forall>rel \<in> set (array (get (JObj item) ''HasAssociations'')). \<not> nullish rel"
    and "\<forall>pset \<in> set (array (get (JObj item) ''IsDefinedBy'')).
           \<forall>q \<in> set (array (get pset ''Quantities'')). typeSearchable q"
  shows "\<exists>vm. resolveElement elementId item = Inr vm"
proof -
  have 1: "\<exists>t. (case get (JObj item) ''IsTypedBy'' of JArr rels \<Rightarrow> typeLoop rels None | _ \<Rightarrow> Inr None) = Inr t"
    using assms(1) typeLoop_returns [of _ None]
    by (cases "get (JObj item) ''IsTypedBy''") (auto simp: array_def)
  have 2: "\<exists>t. (case get (JObj item) ''ContainedInStructure'' of JArr rels \<Rightarrow> containerLoop rels | _ \<Rightarrow> Inr None) = Inr t"
    using assms(2) containerLoop_returns
    by (cases "get (JObj item) ''ContainedInStructure''") (auto simp: array_def)
  have 3: "\<exists>t. (case get (JObj item) ''HasAssociations'' of JArr rels \<Rightarrow> materialsLoop rels [] | _ \<Rightarrow> Inr []) = Inr t"
    using assms(3) materialsLoop_returns [of _ "[]"]
    by (cases "get (JObj item) ''HasAssociations''") (auto simp: array_def)
  have 4: "\<exists>t. (case get (JObj item) ''IsDefinedBy'' of JArr defs \<Rightarrow> formatQuantitySets defs | _ \<Rightarrow> Inr []) = Inr t"
    using assms(4) formatQuantitySets_returns
    by (cases "get (JObj item) ''IsDefinedBy''") (auto simp: array_def)
  from 1 2 3 4 show ?thesis
    by (auto simp: resolveElement_def Let_def)
qed

lemma wallItem_resolved: "resolveElement 7 wallItem = Inr wallModel"
  by (simp add: resolveElement_def wallItem_def wallModel_def typeRecordA_def typeRecordB_def
      get_def extractValue_def has_property_def nullish_def or_else_def skipKeys_def assign_def)

lemma wallItem_IsTypedBy: "get (JObj wallItem) ''IsTypedBy'' = JArr [typeRecordA, typeRecordB]"
  by (simp add: wallItem_def get_def)

lemma typeRecordA_name: "extractValue (get typeRecordA ''Name'') = JStr ''TypeA''"
  by (simp add: typeRecordA_def get_def extractValue_def has_property_def)

lemma typeRecordB_name: "extractValue (get typeRecordB ''Name'') = JStr ''TypeB''"
  by (simp add: typeRecordB_def get_def extractValue_def has_property_def)

text \<open>
  Claim C6, as the code has it. The loop over \<^verbatim>\<open>IsTypedBy\<close> has no \<^verbatim>\<open>break\<close>: every
  record with a truthy extracted name overwrites the label. For an element that is
  resolved, the type label is the extracted name of the last such record, and there is no
  label where no record has one.
\<close>

theorem typeInfo_last_named:
  assumes "resolveElement elementId item = Inr vm"
    and "get (JObj item) ''IsTypedBy'' = JArr rels"
  shows "typeInfo vm =
           (if relationNames rels = [] then None else Some (last (relationNames rels)))"
proof -
  from resolveElement_Inr [OF assms(1)] assms(2)
  have "typeLoop rels None = Inr (typeInfo vm)" by simp
  from typeLoop_last [OF this] show ?thesis .
qed

theorem typeInfo_last_named_witness:
  "resolveElement 7 wallItem = Inr wallModel \<and>
   get (JObj wallItem) ''IsTypedBy'' = JArr [typeRecordA, typeRecordB] \<and>
   relationNames [typeRecordA, typeRecordB] = [JStr ''TypeA'', JStr ''TypeB''] \<and>
   typeInfo wallModel = Some (JStr ''TypeB'')"
proof -
  have n: "relationNames [typeRecordA, typeRecordB] = [JStr ''TypeA'', JStr ''TypeB'']"
    by (simp add: relationNames_def typeRecordA_name typeRecordB_name)
  from typeInfo_last_named [OF wallItem_resolved wallItem_IsTypedBy] n
  have "typeInfo wallModel = Some (JStr ''TypeB'')" by simp
  with wallItem_resolved wallItem_IsTypedBy n show ?thesis by simp
qed

text \<open>
  Claim C6, as the specification states it, fails: the element below has the type records
  TypeA and TypeB, in this order, and its label is TypeB, not the first record's name.
\<close>

theorem typeInfo_first_counterexample:
  "resolveElement 7 wallItem = Inr wallModel \<and>
   get (JObj wallItem) ''IsTypedBy'' = JArr [typeRecordA, typeRecordB] \<and>
   extractValue (get typeRecordA ''Name'') = JStr ''TypeA'' \<and>
   typeInfo wallModel = Some (JStr ''TypeB'') \<and>
   typeInfo wallModel \<noteq> Some (JStr ''TypeA'')"
  by (simp add: wallItem_resolved wallItem_IsTypedBy typeRecordA_name) (simp add: wallModel_def)

text \<open>
  Claim C8, as the code has it. For a resolved element, the direct attributes are exactly
  the top-level fields whose key is not in the list of eight skipped keys (the four relations
  IsDefinedBy, IsTypedBy, ContainedInStructure and HasAssociations, then Representation,
  ObjectPlacement, OwnerHistory and type), whose value is neither \<^verbatim>\<open>null\<close> nor
  \<^verbatim>\<open>undefined\<close>, and whose extracted value is not \<^verbatim>\<open>null\<close>; each is mapped to its extracted
  value. (A field named \<^verbatim>\<open>__proto__\<close> is not stored.) The identity attributes Name and
  GlobalId are not skipped.
\<close>

theorem directAttributes_exact:
  assumes "distinct (map fst item)" and "resolveElement elementId item = Inr vm"
  shows "map_of (directAttributes vm) key =
     (case map_of item key of
        Some v \<Rightarrow>
          if key \<notin> set skipKeys \<and> key \<noteq> ''__proto__'' \<and> v \<noteq> JNull \<and> v \<noteq> JUndefined \<and>
             extractValue v \<noteq> JNull
          then Some (extractValue v) else None
      | None \<Rightarrow> None) \<and>
     ''Name'' \<notin> set skipKeys \<and> ''GlobalId'' \<notin> set skipKeys"
proof -
  from resolveElement_Inr [OF assms(2)]
  have "directAttributes vm = directAttributesLoop item []" by simp
  with directAttributesLoop_map_of [OF assms(1), of "[]" key]
  have m: "map_of (directAttributes vm) key =
     (case map_of item key of
        Some v \<Rightarrow>
          if key \<notin> set skipKeys \<and> key \<noteq> ''__proto__'' \<and> v \<noteq> JNull \<and> v \<noteq> JUndefined \<and>
             extractValue v \<noteq> JNull
          then Some (extractValue v) else None
      | None \<Rightarrow> None)"
    by (simp split: option.splits)
  have k: "''Name'' \<notin> set skipKeys \<and> ''GlobalId'' \<notin> set skipKeys"
    by (simp add: skipKeys_def)
  from m k show ?thesis by (rule conjI)
qed

theorem directAttributes_exact_witness:
  "distinct (map fst wallItem) \<and> resolveElement 7 wallItem = Inr wallModel \<and>
   map_of (directAttributes wallModel) ''Name'' = Some (JStr ''Basic Wall'')"
proof -
  have d: "distinct (map fst wallItem)" by (simp add: wallItem_def)
  have v: "map_of wallItem ''Name'' = Some (JObj [(''value'', JStr ''Basic Wall'')])"
    by (simp add: wallItem_def)
  have e: "extractValue (JObj [(''value'', JStr ''Basic Wall'')]) = JStr ''Basic Wall''"
    by (simp add: extractValue_def has_property_def get_def)
  from directAttributes_exact [OF d wallItem_resolved, of "''Name''"] v e
  have "map_of (directAttributes wallModel) ''Name'' = Some (JStr ''Basic Wall'')"
    by (simp add: skipKeys_def)
  with d wallItem_resolved show ?thesis by simp
qed

text \<open>
  Claim C8, as the specification states it, fails: the direct attributes of the element
  below hold its Name and its GlobalId.
\<close>

theorem directAttributes_identity_counterexample:
  "resolveElement 7 wallItem = Inr wallModel \<and>
   directAttributes wallModel =
     [(''Name'', JStr ''Basic Wall''), (''GlobalId'', JStr ''2O2Fr0t4X7Zf8NOew3FLOH'')]"
  by (simp add: wallItem_resolved) (simp add: wallModel_def)

section \<open>Properties of a selection batch\<close>

lemma processElement_Rejected: "processElement elementId Rejected = Inr (unknownModel elementId)"
  by (simp add: processElement_def resolveElement_def unknownModel_def get_def extractValue_def
      or_else_def skipKeys_def)

lemma elementsLoop_append: "elementsLoop (xs @ ys) out = elementsLoop ys (elementsLoop xs out)"
  by (induction xs arbitrary: out) auto

lemma pushElement_out: "pushElement el out = out @ pushElement el []"
  by (simp add: pushElement_def split: sum.splits)

lemma elementsLoop_out: "elementsLoop els out = out @ elementsLoop els []"
proof (induction els arbitrary: out)
  case Nil
  then show ?case by simp
next
  case (Cons el els)
  have "elementsLoop (el # els) out = elementsLoop els (pushElement el out)" by simp
  also have "\<dots> = pushElement el out @ elementsLoop els []" by (rule Cons.IH)
  also have "\<dots> = out @ pushElement el [] @ elementsLoop els []"
    using pushElement_out [of el out] by simp
  also have "pushElement el [] @ elementsLoop els [] = elementsLoop els (pushElement el [])"
    by (rule Cons.IH [symmetric])
  finally show ?case by simp
qed

lemma pushA:
  "pushElement elementA [] =
     [\<lparr>localId = 1, name = JStr ''Wall A'', globalId = JNull,
       ifcClass = JStr ''IfcWall'', predefinedType = JNull, objectType = JNull,
       typeInfo = None, tag = JNull, description = JNull, longName = JNull,
       spatialContainer = None, materials = [],
       directAttributes = [(''Name'', JStr ''Wall A'')],
       propertySets = [], quantitySets = []\<rparr>]"
  by (simp add: elementA_def pushElement_def processElement_def resolveElement_def get_def
      extractValue_def or_else_def skipKeys_def assign_def)

lemma pushB:
  "pushElement elementB [] =
     [\<lparr>localId = 2, name = JStr ''Door B'', globalId = JNull,
       ifcClass = JStr ''IfcDoor'', predefinedType = JNull, objectType = JNull,
       typeInfo = None, tag = JNull, description = JNull, longName = JNull,
       spatialContainer = None, materials = [],
       directAttributes = [(''Name'', JStr ''Door B'')],
       propertySets = [], quantitySets = []\<rparr>]"
  by (simp add: elementB_def pushElement_def processElement_def resolveElement_def get_def
      extractValue_def or_else_def skipKeys_def assign_def)

text \<open>
  Claim C4, as the code has it. A fetch that raises is caught inside the element's own
  \<^verbatim>\<open>try\<close> block, and the element is resolved from the minimal entry
  \<^verbatim>\<open>{ type: "Unknown" }\<close>: it is in the output, between the outputs of the elements before
  and after it, which are resolved as they would be without it. The loop itself returns a
  list for every input: nothing is raised past it.
\<close>

theorem failed_fetch_renders_Unknown:
  "processElement elementId Rejected = Inr (unknownModel elementId) \<and>
   elementsLoop (before @ (elementId, Rejected) # after) [] =
     elementsLoop before [] @ [unknownModel elementId] @ elementsLoop after []"
proof
  show "processElement elementId Rejected = Inr (unknownModel elementId)"
    by (rule processElement_Rejected)
  have "elementsLoop (before @ (elementId, Rejected) # after) [] =
          elementsLoop after (pushElement (elementId, Rejected) (elementsLoop before []))"
    by (simp add: elementsLoop_append)
  also have "\<dots> =
      pushElement (elementId, Rejected) (elementsLoop before []) @ elementsLoop after []"
    by (rule elementsLoop_out)
  finally show "elementsLoop (before @ (elementId, Rejected) # after) [] =
     elementsLoop before [] @ [unknownModel elementId] @ elementsLoop after []"
    by (simp add: pushElement_def processElement_Rejected)
qed

theorem failed_fetch_renders_Unknown_witness:
  "elementsLoop [elementA, (7, Rejected), elementB] [] =
     pushElement elementA [] @ [unknownModel 7] @ pushElement elementB []"
  using failed_fetch_renders_Unknown [of 7 "[elementA]" "[elementB]"] by simp

text \<open>
  Claim C4, as the specification states it, fails: a selection of one element whose fetch
  raises is rendered with one entry, the minimal one; the element is not omitted.
\<close>

theorem failed_fetch_omitted_counterexample:
  "updatePropertiesPanel [''model-1''] [(''model-1'', [(7, Rejected)])] =
     Rendered [unknownModel 7]"
  by (simp add: updatePropertiesPanel_def selectedElements_def commit_def pushElement_def
      processElement_Rejected)

section \<open>Properties of invocations in flight\<close>

lemma selectedElements_Nil: "selectedElements loaded [] = []"
  by (simp add: selectedElements_def)

lemma consistent_start:
  assumes "consistent loaded sels w"
  shows "consistent loaded (sels @ [modelIdMap]) (startInvocation loaded modelIdMap w)"
proof -
  let ?w = "startInvocation loaded modelIdMap w"
  have len: "length (invocations ?w) = length (sels @ [modelIdMap])"
    using assms by (simp add: startInvocation_def consistent_def Let_def)
  have new: "inFlight loaded modelIdMap (invocations ?w ! length sels)"
    using assms
    by (auto simp: startInvocation_def consistent_def Let_def inFlight_def nth_append
        selectedElements_Nil)
  have old: "\<forall>i < length sels. invocations ?w ! i = invocations w ! i"
    using assms by (simp add: startInvocation_def consistent_def Let_def nth_append)
  show ?thesis
    unfolding consistent_def
  proof (intro conjI allI impI)
    show "length (invocations ?w) = length (sels @ [modelIdMap])" by (rule len)
  next
    fix i assume "i < length (sels @ [modelIdMap])"
    then consider "i < length sels" | "i = length sels" by fastforce
    then show "inFlight loaded ((sels @ [modelIdMap]) ! i) (invocations ?w ! i)"
    proof cases
      case 1
      with old assms show ?thesis by (simp add: nth_append consistent_def)
    next
      case 2
      with new show ?thesis by (simp add: nth_append)
    qed
  qed
qed

lemma inFlight_settle:
  assumes "inFlight loaded modelIdMap task" and "pending task = el # els"
  shows "inFlight loaded modelIdMap
           \<lparr>pending = els, propsHtml = pushElement el (propsHtml task)\<rparr>"
proof -
  from assms obtain handled where h: "selectedElements loaded modelIdMap = handled @ el # els"
      "propsHtml task = elementsLoop handled []"
    by (auto simp: inFlight_def)
  have "selectedElements loaded modelIdMap = (handled @ [el]) @ els" using h(1) by simp
  moreover have "pushElement el (propsHtml task) = elementsLoop (handled @ [el]) []"
    using h(2) by (simp add: elementsLoop_append)
  ultimately show ?thesis unfolding inFlight_def by (intro exI [of _ "handled @ [el]"]) simp
qed

lemma consistent_settle:
  assumes "consistent loaded sels w"
  shows "consistent loaded sels (settle i w)"
proof (cases "i < length (invocations w)")
  case False
  with assms show ?thesis by (simp add: settle_def)
next
  case True
  note i = True
  show ?thesis
  proof (cases "pending (invocations w ! i)")
    case Nil
    with i assms show ?thesis by (simp add: settle_def)
  next
    case (Cons el els)
    let ?task = "\<lparr>pending = els, propsHtml = pushElement el (propsHtml (invocations w ! i))\<rparr>"
    from i Cons have task: "invocations (settle i w) = (invocations w)[i := ?task]"
      by (simp add: settle_def Let_def)
    from assms i have "inFlight loaded (sels ! i) (invocations w ! i)"
      by (simp add: consistent_def)
    from inFlight_settle [OF this Cons] have new: "inFlight loaded (sels ! i) ?task" .
    show ?thesis
      unfolding consistent_def
    proof (intro conjI allI impI)
      show "length (invocations (settle i w)) = length sels"
        using assms by (simp add: task consistent_def)
    next
      fix j assume j: "j < length sels"
      show "inFlight loaded (sels ! j) (invocations (settle i w) ! j)"
      proof (cases "j = i")
        case True
        with new i show ?thesis by (simp add: task)
      next
        case False
        with assms j show ?thesis by (simp add: task consistent_def)
      qed
    qed
  qed
qed

lemma run_snoc: "run loaded (evs @ [ev]) w = step loaded ev (run loaded evs w)"
  by (induction evs arbitrary: w) auto

lemma selections_snoc:
  "selections (evs @ [ev]) =
     (case ev of Select m \<Rightarrow> selections evs @ [m] | Settle i \<Rightarrow> selections evs)"
  by (induction evs rule: selections.induct) (auto split: event.splits)

lemma consistent_run: "consistent loaded (selections evs) (run loaded evs viewer0)"
proof (induction evs rule: rev_induct)
  case Nil
  show ?case by (simp add: consistent_def viewer0_def)
next
  case (snoc ev evs)
  show ?case
  proof (cases ev)
    case (Select m)
    with consistent_start [OF snoc.IH, of m] show ?thesis
      by (simp add: run_snoc selections_snoc)
  next
    case (Settle i)
    with consistent_settle [OF snoc.IH, of i] show ?thesis
      by (simp add: run_snoc selections_snoc)
  qed
qed

lemma panelA: "updatePropertiesPanel [''model-1''] selectionA = Rendered (pushElement elementA [])"
  by (simp add: updatePropertiesPanel_def selectionA_def selectedElements_def commit_def pushA)

lemma panelB: "updatePropertiesPanel [''model-1''] selectionB = Rendered (pushElement elementB [])"
  by (simp add: updatePropertiesPanel_def selectionB_def selectedElements_def commit_def pushB)

lemma twoStarted:
  "run [''model-1''] [Select selectionA, Select selectionB] viewer0 =
     \<lparr>propsContainer = Loading,
      invocations = [\<lparr>pending = [elementA], propsHtml = []\<rparr>,
                     \<lparr>pending = [elementB], propsHtml = []\<rparr>]\<rparr>"
  by (simp add: viewer0_def startInvocation_def selectedElements_def selectionA_def
      selectionB_def)

lemma newerSettled:
  "run [''model-1''] [Select selectionA, Select selectionB, Settle 1] viewer0 =
     \<lparr>propsContainer = Rendered (pushElement elementB []),
      invocations = [\<lparr>pending = [elementA], propsHtml = []\<rparr>,
                     \<lparr>pending = [], propsHtml = pushElement elementB []\<rparr>]\<rparr>"
proof -
  have "run [''model-1''] ([Select selectionA, Select selectionB] @ [Settle 1]) viewer0 =
          step [''model-1''] (Settle 1)
            (run [''model-1''] [Select selectionA, Select selectionB] viewer0)"
    by (rule run_snoc)
  then have e: "run [''model-1''] [Select selectionA, Select selectionB, Settle 1] viewer0 =
          settle 1 (run [''model-1''] [Select selectionA, Select selectionB] viewer0)"
    by (simp only: append.simps step.simps)
  show ?thesis
    by (subst e, unfold twoStarted) (simp add: settle_def commit_def pushB Let_def)
qed

text \<open>
  Claim C5, as the code has it. The code holds no generation token. When the last fetch of
  an invocation settles, the invocation writes its own output into the panel, whatever
  selections have been started since: after any sequence of events, settling the only
  pending fetch of invocation \<open>i\<close> leaves in the panel what the \<open>i\<close>-th selection renders.
  Of two batches in flight, the panel ends with the one whose fetches settle last.
\<close>

theorem last_settled_invocation_commits:
  assumes "w = run loaded evs viewer0"
    and "i < length (invocations w)"
    and "pending (invocations w ! i) = [el]"
  shows "propsContainer (run loaded (evs @ [Settle i]) viewer0) =
           updatePropertiesPanel loaded (selections evs ! i)"
proof -
  from consistent_run [of loaded evs] assms(1)
  have c: "consistent loaded (selections evs) w" by simp
  with assms(2) have "inFlight loaded (selections evs ! i) (invocations w ! i)"
    by (simp add: consistent_def)
  then obtain handled where h: "selectedElements loaded (selections evs ! i) = handled @ [el]"
      "propsHtml (invocations w ! i) = elementsLoop handled []"
    using assms(3) by (auto simp: inFlight_def)
  from h(1) have ne: "selections evs ! i \<noteq> []" by (auto simp: selectedElements_Nil)
  have "propsContainer (settle i w) = commit (pushElement el (propsHtml (invocations w ! i)))"
    using assms(2,3) by (simp add: settle_def Let_def)
  also have "\<dots> = commit (elementsLoop (selectedElements loaded (selections evs ! i)) [])"
    using h by (simp add: elementsLoop_append)
  also have "\<dots> = updatePropertiesPanel loaded (selections evs ! i)"
    using ne by (simp add: updatePropertiesPanel_def)
  finally show ?thesis using assms(1) by (simp add: run_snoc)
qed

theorem last_settled_invocation_commits_witness:
  "0 < length (invocations
         (run [''model-1''] [Select selectionA, Select selectionB, Settle 1] viewer0)) \<and>
   pending (invocations
         (run [''model-1''] [Select selectionA, Select selectionB, Settle 1] viewer0) ! 0)
     = [elementA] \<and>
   propsContainer
     (run [''model-1''] ([Select selectionA, Select selectionB, Settle 1] @ [Settle 0]) viewer0)
     = updatePropertiesPanel [''model-1'']
         (selections [Select selectionA, Select selectionB, Settle 1] ! 0)"
proof -
  have a: "0 < length (invocations
         (run [''model-1''] [Select selectionA, Select selectionB, Settle 1] viewer0))"
    unfolding newerSettled by simp
  have b: "pending (invocations
         (run [''model-1''] [Select selectionA, Select selectionB, Settle 1] viewer0) ! 0)
     = [elementA]"
    unfolding newerSettled by simp
  from last_settled_invocation_commits [OF refl a b] a b show ?thesis by blast
qed

text \<open>
  Claim C5, as the specification states it, fails: batch A is started, batch B is started,
  the fetch of B settles, then the fetch of A settles. The panel then shows the output of
  the superseded batch A, which differs from that of B.
\<close>

theorem stale_batch_counterexample:
  "propsContainer
     (run [''model-1''] [Select selectionA, Select selectionB, Settle 1, Settle 0] viewer0)
     = updatePropertiesPanel [''model-1''] selectionA \<and>
   updatePropertiesPanel [''model-1''] selectionA \<noteq> updatePropertiesPanel [''model-1''] selectionB"
proof
  have "run [''model-1''] ([Select selectionA, Select selectionB, Settle 1] @ [Settle 0]) viewer0
     = step [''model-1''] (Settle 0)
         (run [''model-1''] [Select selectionA, Select selectionB, Settle 1] viewer0)"
    by (rule run_snoc)
  then have e:
    "run [''model-1''] [Select selectionA, Select selectionB, Settle 1, Settle 0] viewer0
     = settle 0 (run [''model-1''] [Select selectionA, Select selectionB, Settle 1] viewer0)"
    by (simp only: append.simps step.simps)
  show "propsContainer
     (run [''model-1''] [Select selectionA, Select selectionB, Settle 1, Settle 0] viewer0)
     = updatePropertiesPanel [''model-1''] selectionA"
    by (subst e, unfold newerSettled panelA) (simp add: settle_def commit_def pushA Let_def)
  show "updatePropertiesPanel [''model-1''] selectionA
          \<noteq> updatePropertiesPanel [''model-1''] selectionB"
    unfolding panelA panelB pushA pushB by simp
qed

section \<open>Properties of ghost mode\<close>

lemma map_of_mapSet: "map_of (mapSet k v m) = (map_of m)(k \<mapsto> v)"
  by (induction m) (auto simp: fun_eq_iff)

lemma keys_mapSet: "fst ` set (mapSet k v m) = insert k (fst ` set m)"
  by (induction m) auto

lemma distinct_mapSet: "distinct (map fst m) \<Longrightarrow> distinct (map fst (mapSet k v m))"
proof (induction m)
  case Nil
  then show ?case by simp
next
  case (Cons p ps)
  then show ?case using keys_mapSet [of k v ps] by (auto simp: image_iff)
qed

lemma transparentLoop_store:
  "distinct as \<Longrightarrow>
   store (transparentLoop lib as g) a =
     (if a \<in> set as \<and> \<not> truthy (customId (store g a)) then ghosted lib (store g a)
      else store g a)"
proof (induction as arbitrary: g)
  case Nil
  then show ?case by simp
next
  case (Cons b bs)
  then have d: "distinct bs" and nb: "b \<notin> set bs" by auto
  show ?case
    using Cons.IH [OF d] nb
    by (auto simp: Let_def ghosted_def)
qed

lemma transparentLoop_snapshots:
  "distinct as \<Longrightarrow>
   map_of (originalColors (transparentLoop lib as g)) a =
     (if a \<in> set as \<and> \<not> truthy (customId (store g a)) then Some (snapshotOf lib (store g a))
      else map_of (originalColors g) a)"
proof (induction as arbitrary: g)
  case Nil
  then show ?case by simp
next
  case (Cons b bs)
  then have d: "distinct bs" and nb: "b \<notin> set bs" by auto
  show ?case
    using Cons.IH [OF d] nb
    by (auto simp: Let_def snapshotOf_def map_of_mapSet)
qed

lemma transparentLoop_distinct:
  "distinct (map fst (originalColors g)) \<Longrightarrow>
   distinct (map fst (originalColors (transparentLoop lib as g)))"
proof (induction as arbitrary: g)
  case Nil
  then show ?case by simp
next
  case (Cons b bs)
  show ?case
  proof (cases "truthy (customId (store g b))")
    case True
    with Cons show ?thesis by simp
  next
    case False
    let ?g = "g\<lparr>originalColors := mapSet b (snapshotOf lib (store g b)) (originalColors g),
                 store := (store g)(b := ghosted lib (store g b))\<rparr>"
    have "distinct (map fst (originalColors ?g))"
      using distinct_mapSet [OF Cons.prems] by simp
    from Cons.IH [OF this] False show ?thesis
      by (simp add: Let_def snapshotOf_def ghosted_def)
  qed
qed

lemma restoreLoop_store:
  "distinct (map fst oc) \<Longrightarrow>
   restoreLoop lib oc st a =
     (case map_of oc a of Some d \<Rightarrow> restored lib d (st a) | None \<Rightarrow> st a)"
proof (induction oc arbitrary: st)
  case Nil
  then show ?case by simp
next
  case (Cons p ps)
  obtain b d where p: "p = (b, d)" by (cases p)
  from Cons.prems p have ds: "distinct (map fst ps)" and nb: "b \<notin> fst ` set ps" by auto
  from nb have nb': "map_of ps b = None" by (simp add: map_of_eq_None_iff)
  show ?case
    using Cons.IH [OF ds] nb' p
    by (auto simp: restored_def split: option.splits)
qed

lemma restored_ghosted:
  "shade (restored lib (snapshotOf lib m) (ghosted lib m)) =
     shadeSetHex lib (shadeGetHex lib (shade m)) (shadeSetColorName lib ''white'' (shade m)) \<and>
   transparent (restored lib (snapshotOf lib m) (ghosted lib m)) = transparent m \<and>
   opacity (restored lib (snapshotOf lib m) (ghosted lib m)) = opacity m"
  by (simp add: restored_def snapshotOf_def ghosted_def)

text \<open>The example library on the grey channel one half and on the bytes of the red.\<close>

lemma channel8_half: "channel8 (1 / 2) = 128"
  by (simp add: channel8_def)

lemma floor_halves:
  "\<lfloor>(409 :: rat) / 2\<rfloor> = 204" "\<lfloor>(103 :: rat) / 2\<rfloor> = 51" "\<lfloor>(511 :: rat) / 2\<rfloor> = 255"
  by (rule floor_unique; simp)+

lemma channel8_bytes: "channel8 (204 / 255) = 204 \<and> channel8 (51 / 255) = 51 \<and> channel8 1 = 255"
  by (simp add: channel8_def floor_halves)

lemma grey_hex: "rgbGetHex \<lparr>red = 1 / 2, green = 1 / 2, blue = 1 / 2\<rparr> = 0x808080"
  by (simp add: rgbGetHex_def channel8_half)

lemma grey_back:
  "rgbSetHex 0x808080 c = \<lparr>red = 128 / 255, green = 128 / 255, blue = 128 / 255\<rparr>"
  by (simp add: rgbSetHex_def)

lemma white_hex: "rgbGetHex \<lparr>red = 1, green = 1, blue = 1\<rparr> = 0xFFFFFF"
  by (simp add: rgbGetHex_def channel8_bytes)

lemma white_back: "rgbSetHex 0xFFFFFF c = \<lparr>red = 1, green = 1, blue = 1\<rparr>"
  by (simp add: rgbSetHex_def)

lemma ghost0_round_trip:
  "shade (store (restoreModelMaterials rgbLibrary (setModelTransparent rgbLibrary ghost0)) 0) =
     Color \<lparr>red = 128 / 255, green = 128 / 255, blue = 128 / 255\<rparr>"
  by (simp add: restoreModelMaterials_def setModelTransparent_def ghost0_def store0_def
      grey_def marked_def rgbLibrary_def rgbSetColorName_def grey_hex grey_back)

lemma ghostTwice_round_trip:
  "shade (store (restoreModelMaterials rgbLibrary (setModelTransparent rgbLibrary ghostTwice)) 0)
     = Color \<lparr>red = 1, green = 1, blue = 1\<rparr>"
  by (simp add: restoreModelMaterials_def setModelTransparent_def ghostTwice_def storeBrick_def
      brick_def rgbLibrary_def rgbSetColorName_def white_hex white_back)

text \<open>
  Claim C2, as the code has it. Ghost mode is off, so the snapshot map is empty, and the
  registry lists each material once. Activation followed at once by deactivation leaves
  every listed material without a custom identifier with the transparent flag and the
  opacity it had before, and with the colour that \<^verbatim>\<open>setHex\<close> makes of the integer that
  \<^verbatim>\<open>getHex\<close> read from its colour before: the snapshot holds that integer and nothing else
  of the colour. A listed material with a custom identifier gets no snapshot, and its
  record is the same after activation and after deactivation as before.
\<close>

theorem ghost_round_trip:
  assumes "originalColors g = []" and "distinct (materialsList g)"
    and "a \<in> set (materialsList g)"
  shows "(\<not> truthy (customId (store g a)) \<longrightarrow>
            shade (store (restoreModelMaterials lib (setModelTransparent lib g)) a)
              = shadeSetHex lib (shadeGetHex lib (shade (store g a)))
                  (shadeSetColorName lib ''white'' (shade (store g a))) \<and>
            transparent (store (restoreModelMaterials lib (setModelTransparent lib g)) a)
              = transparent (store g a) \<and>
            opacity (store (restoreModelMaterials lib (setModelTransparent lib g)) a)
              = opacity (store g a)) \<and>
         (truthy (customId (store g a)) \<longrightarrow>
            a \<notin> fst ` set (originalColors (setModelTransparent lib g)) \<and>
            store (setModelTransparent lib g) a = store g a \<and>
            store (restoreModelMaterials lib (setModelTransparent lib g)) a = store g a)"
proof -
  let ?g1 = "transparentLoop lib (materialsList g) g"
  have st1: "store ?g1 a =
      (if \<not> truthy (customId (store g a)) then ghosted lib (store g a) else store g a)"
    using transparentLoop_store [OF assms(2), of lib g a] assms(3) by simp
  have oc1: "map_of (originalColors ?g1) a =
     (if \<not> truthy (customId (store g a)) then Some (snapshotOf lib (store g a)) else None)"
    using transparentLoop_snapshots [OF assms(2), of lib g a] assms(1,3) by simp
  have d1: "distinct (map fst (originalColors ?g1))"
    using transparentLoop_distinct [of g lib "materialsList g"] assms(1) by simp
  have st2: "store (restoreModelMaterials lib (setModelTransparent lib g)) a =
      (case map_of (originalColors ?g1) a of
         Some d \<Rightarrow> restored lib d (store ?g1 a) | None \<Rightarrow> store ?g1 a)"
    using restoreLoop_store [OF d1, of lib "store ?g1" a]
    by (simp add: restoreModelMaterials_def setModelTransparent_def)
  show ?thesis
  proof (cases "truthy (customId (store g a))")
    case True
    with oc1 have n: "map_of (originalColors ?g1) a = None" by simp
    then have k: "a \<notin> fst ` set (originalColors ?g1)" by (simp add: map_of_eq_None_iff)
    from True st1 have s1: "store ?g1 a = store g a" by simp
    from st2 n s1
    have s2: "store (restoreModelMaterials lib (setModelTransparent lib g)) a = store g a"
      by simp
    from True k s1 s2 show ?thesis by (simp add: setModelTransparent_def)
  next
    case False
    with st1 oc1 st2 restored_ghosted [of lib "store g a"] show ?thesis
      by simp
  qed
qed

theorem ghost_round_trip_witness:
  "originalColors ghost0 = [] \<and> distinct (materialsList ghost0) \<and>
   0 \<in> set (materialsList ghost0) \<and> \<not> truthy (customId (store ghost0 0)) \<and>
   shade (store (restoreModelMaterials rgbLibrary (setModelTransparent rgbLibrary ghost0)) 0) =
     Color \<lparr>red = 128 / 255, green = 128 / 255, blue = 128 / 255\<rparr> \<and>
   transparent (store (restoreModelMaterials rgbLibrary (setModelTransparent rgbLibrary ghost0)) 0)
     = False \<and>
   opacity (store (restoreModelMaterials rgbLibrary (setModelTransparent rgbLibrary ghost0)) 0)
     = Finite 1"
proof -
  have a: "originalColors ghost0 = []" by (simp add: ghost0_def)
  have b: "distinct (materialsList ghost0)" by (simp add: ghost0_def)
  have c: "0 \<in> set (materialsList ghost0)" by (simp add: ghost0_def)
  have d: "\<not> truthy (customId (store ghost0 0))" by (simp add: ghost0_def store0_def grey_def)
  have e: "store ghost0 0 = grey" by (simp add: ghost0_def store0_def)
  have f: "shadeSetHex rgbLibrary (shadeGetHex rgbLibrary (shade grey))
             (shadeSetColorName rgbLibrary ''white'' (shade grey))
           = Color \<lparr>red = 128 / 255, green = 128 / 255, blue = 128 / 255\<rparr>"
    by (simp add: grey_def rgbLibrary_def grey_hex grey_back)
  from ghost_round_trip [OF a b c, of rgbLibrary] d e f a b c show ?thesis
    by (simp add: grey_def)
qed

text \<open>
  Claim C2, as the specification states it, fails in two ways. A grey material whose
  channels are one half comes back with the channels 128/255: the snapshot keeps the integer
  0x808080, not the colour. And a material that the registry lists twice is snapshotted a
  second time when it is already white, and comes back white.
\<close>

theorem ghost_round_trip_counterexample:
  "shade (store ghost0 0) = Color \<lparr>red = 1 / 2, green = 1 / 2, blue = 1 / 2\<rparr> \<and>
   \<not> truthy (customId (store ghost0 0)) \<and>
   shade (store (restoreModelMaterials rgbLibrary (setModelTransparent rgbLibrary ghost0)) 0) =
     Color \<lparr>red = 128 / 255, green = 128 / 255, blue = 128 / 255\<rparr> \<and>
   shade (store (restoreModelMaterials rgbLibrary (setModelTransparent rgbLibrary ghost0)) 0) \<noteq>
     shade (store ghost0 0) \<and>
   shade (store ghostTwice 0) = Color \<lparr>red = 204 / 255, green = 51 / 255, blue = 51 / 255\<rparr> \<and>
   \<not> truthy (customId (store ghostTwice 0)) \<and>
   shade (store (restoreModelMaterials rgbLibrary (setModelTransparent rgbLibrary ghostTwice)) 0)
     = Color \<lparr>red = 1, green = 1, blue = 1\<rparr> \<and>
   shade (store (restoreModelMaterials rgbLibrary (setModelTransparent rgbLibrary ghostTwice)) 0)
     \<noteq> shade (store ghostTwice 0)"
  unfolding ghost0_round_trip ghostTwice_round_trip
  by (simp add: ghost0_def store0_def grey_def ghostTwice_def storeBrick_def brick_def)


end
